theory Spec2Isabelle
  imports Complex_Main "HOL-Library.Multiset"
begin

section \<open>The SimCLR training loop of \<^verbatim>\<open>dl_training/self_supervision/sim_clr.py\<close>\<close>

text \<open>
  The file is a thin orchestration layer: every tensor computation is done by a
  collaborator (the network, the optimizer, the loss callable, the metrics, the data
  loader, numpy). The embedding keeps the collaborators as parameters and models what
  the file itself does: the order of the calls, the bookkeeping of the dictionaries and
  lists, the checks and the errors they raise.

  Conventions of the embedding.
  \<^item> Python floats are modelled as \<open>real\<close> (no rounding, no NaN in the collaborators'
    results); the one place where the rounding of a float decides a branch, the
    conversion of the integer \<open>M\<close> in \<open>M/2.0\<close>, is modelled exactly.
  \<^item> A tensor or array with a leading batch axis is the list of its rows; the rows are
    opaque values of equal shape.
  \<^item> The collaborators act on one abstract world state \<open>'s\<close> (parameters, gradients,
    optimizer state, visualizer); each call made on them is appended to a trace.
  \<^item> Collaborator calls are total: an exception raised inside the framework is not
    modelled. The keyword arguments \<open>**kwargs\<close> are empty; the progress bar and
    \<open>print\<close> are left out.
\<close>

subsection \<open>Errors\<close>

datatype error =
    AssertionError string
  | ValueError string
  | IndexError
  | AxisError
  | OverflowError
  | AttributeError
  | TypeError
  | RuntimeError
  | ZeroDivisionError

subsection \<open>The even-sample-count check \<open>M//2 == M/2.0\<close>\<close>

text \<open>
  \<open>M/2.0\<close> converts the unbounded integer \<open>M\<close> to a double first (CPython's
  \<open>PyLong_AsDouble\<close>): the magnitude is rounded to 53 significant bits, ties to even,
  and a result of \<open>2^1024\<close> or more raises \<open>OverflowError\<close>. Halving the double is
  exact. The comparison of the integer \<open>M//2\<close> with the float is exact as well, so it
  is a comparison of rationals.
\<close>

fun bit_length :: "nat \<Rightarrow> nat" where
  "bit_length n = (if n = 0 then 0 else Suc (bit_length (n div 2)))"

declare bit_length.simps [simp del]

definition round_half_even :: "nat \<Rightarrow> nat" where
  "round_half_even n =
     (if bit_length n \<le> 53 then n
      else let e = bit_length n - 53;
               q = n div 2 ^ e;
               r = n mod 2 ^ e;
               h = 2 ^ (e - 1)
           in (if h < r \<or> (r = h \<and> odd q) then q + 1 else q) * 2 ^ e)"

definition long_as_double :: "int \<Rightarrow> error + int" where
  "long_as_double M =
     (let a = round_half_even (nat \<bar>M\<bar>)
      in if 2 ^ 1024 \<le> a then Inl OverflowError else Inr (sgn M * int a))"

definition parity_error :: error where
  "parity_error = AssertionError ''Nb of feature vectors averaged should be odd''"

definition even_sample_count_check :: "int \<Rightarrow> error + unit" where
  "even_sample_count_check M =
     (case long_as_double M of
        Inl e \<Rightarrow> Inl e
      | Inr f \<Rightarrow>
          if (of_int (M div 2) :: rat) = of_int f / 2 then Inr () else Inl parity_error)"

subsection \<open>numpy arrays of rows\<close>

text \<open>
  \<open>np.array\<close> of a list of rows: the empty list gives a one-dimensional array of
  shape \<open>(0,)\<close>, rows of one length \<open>n\<close> give shape \<open>(len, n)\<close>, and rows of
  different lengths are refused (numpy 1.24 and later raise \<open>ValueError\<close>).
\<close>

datatype 'a ndarray = Array1D0 | Array2D nat nat "'a list list"

fun shape :: "'a ndarray \<Rightarrow> nat list" where
  "shape Array1D0 = [0]"
| "shape (Array2D m n rs) = [m, n]"

fun np_array :: "'a list list \<Rightarrow> error + 'a ndarray" where
  "np_array [] = Inr Array1D0"
| "np_array (r # rs) =
     (if list_all (\<lambda>r'. length r' = length r) rs
      then Inr (Array2D (Suc (length rs)) (length r) (r # rs))
      else Inl (ValueError ''setting an array element with a sequence''))"

text \<open>\<open>a[0,:]\<close>, \<open>np.all(r == a)\<close> and \<open>a.swapaxes(0, 1)\<close>.\<close>

fun first_row :: "'a ndarray \<Rightarrow> error + 'a list" where
  "first_row Array1D0 = Inl IndexError"
| "first_row (Array2D m n []) = Inl IndexError"
| "first_row (Array2D m n (r # rs)) = Inr r"

fun np_all_eq :: "'a list \<Rightarrow> 'a ndarray \<Rightarrow> bool" where
  "np_all_eq r Array1D0 = True"
| "np_all_eq r (Array2D m n rs) = list_all (\<lambda>r'. r' = r) rs"

fun swapaxes01 :: "'a ndarray \<Rightarrow> error + 'a ndarray" where
  "swapaxes01 Array1D0 = Inl AxisError"
| "swapaxes01 (Array2D m n rs) =
     Inr (Array2D n m (map (\<lambda>j. map (\<lambda>r. r ! j) rs) [0..<n]))"

subsection \<open>Loader, batches and collaborators\<close>

datatype sampler = SequentialSampler | RandomSampler | WeightedRandomSampler

text \<open>
  A batch holds, per sample, the two augmented views (\<open>inputs[:, 0, :]\<close> and
  \<open>inputs[:, 1, :]\<close>) and optionally one label per sample. \<open>iterate l k\<close> is the
  list of batches that the \<open>k\<close>-th iteration over the loader made by the running call
  yields; \<open>len(loader)\<close> is the number of batches of an iteration.
\<close>

record ('x, 'l) dataitem =
  inputs :: "('x \<times> 'x) list"
  labels :: "'l list option"

record ('x, 'l) loader =
  sampler :: sampler
  iterate :: "nat \<Rightarrow> ('x, 'l) dataitem list"

definition len_loader :: "('x, 'l) loader \<Rightarrow> nat" where
  "len_loader l = length (iterate l 0)"

datatype ('z, 'l) loss_args = Loss2 "'z list" "'z list" | Loss3 "'z list" "'z list" "'l list"

datatype 'a pyval = PyNone | Tensor 'a

datatype ('x, 'z, 'l, 'a, 'v) event =
    ModelTrain
  | ModelEval
  | ZeroGrad
  | ModelForward "'x list" "'z list"
  | LossCall "('z, 'l) loss_args" real "'a pyval list"
  | Backward
  | OptimizerStep
  | GetAuxLosses "(string \<times> real) list"
  | RefreshCurrentMetrics
  | GetCurrentVisuals "'v list"
  | DisplayImages "'v list"

text \<open>
  The fields of \<open>Base\<close> that the class uses. \<open>get_current_visuals\<close> and
  \<open>get_aux_losses\<close> are \<open>None\<close> when \<open>hasattr\<close> is false. The loss callable returns
  \<open>batch_loss\<close> (its float value) and the list \<open>*args\<close> of its further outputs.
  \<open>tensor_bool\<close> is \<open>bool(t)\<close> of a tensor, \<open>None\<close> when it raises.
\<close>

record ('s, 'x, 'z, 'l, 'a, 'v) base =
  model :: "'x list \<Rightarrow> 's \<Rightarrow> 'z list \<times> 's"
  model_train :: "'s \<Rightarrow> 's"
  model_eval :: "'s \<Rightarrow> 's"
  get_current_visuals :: "('s \<Rightarrow> 'v list \<times> 's) option"
  zero_grad :: "'s \<Rightarrow> 's"
  step :: "'s \<Rightarrow> 's"
  loss :: "('z, 'l) loss_args \<Rightarrow> 's \<Rightarrow> (real \<times> 'a pyval list) \<times> 's"
  backward :: "'s \<Rightarrow> 's"
  get_aux_losses :: "('s \<Rightarrow> (string \<times> real) list) option"
  metrics :: "(string \<times> ('a \<Rightarrow> 'a \<Rightarrow> real)) list"
  tensor_bool :: "'a \<Rightarrow> bool option"

type_synonym ('s, 'x, 'z, 'l, 'a, 'v) ctx = "'s \<times> ('x, 'z, 'l, 'a, 'v) event list"

subsection \<open>\<open>SimCLR.get_output_pairs\<close>\<close>

definition get_output_pairs ::
  "('s, 'x, 'z, 'l, 'a, 'v) base \<Rightarrow> ('x \<times> 'x) list \<Rightarrow> ('s, 'x, 'z, 'l, 'a, 'v) ctx
     \<Rightarrow> ('z list \<times> 'z list) \<times> ('s, 'x, 'z, 'l, 'a, 'v) ctx" where
  "get_output_pairs b inp c =
     (case c of (s, tr) \<Rightarrow>
        (case model b (map fst inp) s of (z_i, s1) \<Rightarrow>
           (case model b (map snd inp) s1 of (z_j, s2) \<Rightarrow>
              ((z_i, z_j),
               (s2, tr @ [ModelForward (map fst inp) z_i, ModelForward (map snd inp) z_j])))))"

subsection \<open>\<open>SimCLR.features_avg_test\<close>\<close>

text \<open>The inner loop \<open>for dataitem in loader\<close> of one pass.\<close>

fun collect_batches ::
  "('s, 'x, 'z, 'l, 'a, 'v) base \<Rightarrow> ('x, 'l) dataitem list
     \<Rightarrow> 'z list \<times> 'z list \<times> 'l list \<times> ('s, 'x, 'z, 'l, 'a, 'v) ctx
     \<Rightarrow> 'z list \<times> 'z list \<times> 'l list \<times> ('s, 'x, 'z, 'l, 'a, 'v) ctx" where
  "collect_batches b [] acc = acc"
| "collect_batches b (d # ds) (current_y0, current_y1, current_y_true, c) =
     (let current_y_true' =
            (case labels d of None \<Rightarrow> current_y_true | Some lb \<Rightarrow> current_y_true @ lb)
      in case get_output_pairs b (inputs d) c of
           ((z_i, z_j), c') \<Rightarrow>
             collect_batches b ds (current_y0 @ z_i, current_y1 @ z_j, current_y_true', c'))"

text \<open>The body of \<open>for _ in range(M//2)\<close>: pass number \<open>k\<close>.\<close>

definition feature_pass ::
  "('s, 'x, 'z, 'l, 'a, 'v) base \<Rightarrow> ('x, 'l) loader \<Rightarrow> nat
     \<Rightarrow> 'z list list \<times> 'l list list \<times> ('s, 'x, 'z, 'l, 'a, 'v) ctx
     \<Rightarrow> 'z list list \<times> 'l list list \<times> ('s, 'x, 'z, 'l, 'a, 'v) ctx" where
  "feature_pass b l k st =
     (case st of (y, y_true, c) \<Rightarrow>
        (case collect_batches b (iterate l k) ([], [], [], c) of
           (current_y0, current_y1, current_y_true, c') \<Rightarrow>
             (y @ [current_y0, current_y1], y_true @ [current_y_true, current_y_true], c')))"

definition sampler_error :: error where
  "sampler_error =
     ValueError ''The dataloader must use the sequential sampler (avoid random_sampler option)''"

definition order_error :: error where
  "order_error = AssertionError ''Wrong iteration order through the dataloader''"

definition features_avg_test ::
  "('s, 'x, 'z, 'l, 'a, 'v) base \<Rightarrow> ('x, 'l) loader \<Rightarrow> int \<Rightarrow> 's
     \<Rightarrow> error + ('z ndarray \<times> 'l ndarray \<times> ('s, 'x, 'z, 'l, 'a, 'v) ctx)" where
  "features_avg_test b l M s =
     (case even_sample_count_check M of
        Inl e \<Rightarrow> Inl e
      | Inr u \<Rightarrow>
          if sampler l \<noteq> SequentialSampler then Inl sampler_error
          else
            (case fold (feature_pass b l) [0..<nat (M div 2)] ([], [], (model_eval b s, [ModelEval])) of
               (y, y_true, c) \<Rightarrow>
                 (case np_array y_true of
                    Inl e \<Rightarrow> Inl e
                  | Inr a \<Rightarrow>
                      (case first_row a of
                         Inl e \<Rightarrow> Inl e
                       | Inr r0 \<Rightarrow>
                           if \<not> np_all_eq r0 a then Inl order_error
                           else
                             (case np_array y of
                                Inl e \<Rightarrow> Inl e
                              | Inr ya \<Rightarrow>
                                  (case swapaxes01 ya of
                                     Inl e \<Rightarrow> Inl e
                                   | Inr y' \<Rightarrow>
                                       (case swapaxes01 a of
                                          Inl e \<Rightarrow> Inl e
                                        | Inr y_true' \<Rightarrow> Inr (y', y_true', c))))))))"

subsection \<open>\<open>SimCLR.update_metrics\<close>\<close>

text \<open>
  The dictionary \<open>values\<close> maps names to floats. \<open>accumulate\<close> is the pair of statements
  \<^verbatim>\<open>if name not in values: values[name] = 0\<close> and \<^verbatim>\<open>values[name] += x\<close>.
\<close>

type_synonym dict = "string \<rightharpoonup> real"

definition accumulate :: "dict \<Rightarrow> string \<Rightarrow> real \<Rightarrow> dict" where
  "accumulate vals name x =
     (let vals' = (if vals name = None then vals(name \<mapsto> 0) else vals)
      in vals'(name \<mapsto> (case vals' name of None \<Rightarrow> 0 | Some v \<Rightarrow> v) + x))"

text \<open>
  The parameter \<open>validation\<close> is a keyword flag, or whatever a third positional output
  of the loss callable binds to it; \<open>if validation:\<close> takes its truth value.
\<close>

datatype 'a validation_arg = Flag bool | Positional "'a pyval"

definition truth_value ::
  "('s, 'x, 'z, 'l, 'a, 'v) base \<Rightarrow> 'a validation_arg \<Rightarrow> error + bool" where
  "truth_value b v =
     (case v of
        Flag f \<Rightarrow> Inr f
      | Positional PyNone \<Rightarrow> Inr False
      | Positional (Tensor t) \<Rightarrow>
          (case tensor_bool b t of None \<Rightarrow> Inl RuntimeError | Some f \<Rightarrow> Inr f))"

definition validation_name :: "bool \<Rightarrow> string \<Rightarrow> string" where
  "validation_name validation name = (if validation then name @ '' on validation set'' else name)"

text \<open>The loop \<open>for name, metric in self.metrics.items()\<close>; dividing a float by \<open>0\<close> raises.\<close>

fun metrics_loop ::
  "('s, 'x, 'z, 'l, 'a, 'v) base \<Rightarrow> dict \<Rightarrow> nat \<Rightarrow> 'a \<Rightarrow> 'a \<Rightarrow> 'a validation_arg
     \<Rightarrow> (string \<times> ('a \<Rightarrow> 'a \<Rightarrow> real)) list \<Rightarrow> error + dict" where
  "metrics_loop b vals nb_batch logits target validation [] = Inr vals"
| "metrics_loop b vals nb_batch logits target validation ((name, metric) # ms) =
     (case truth_value b validation of
        Inl e \<Rightarrow> Inl e
      | Inr v \<Rightarrow>
          if nb_batch = 0 then Inl ZeroDivisionError
          else metrics_loop b
                 (accumulate vals (validation_name v name) (metric logits target / real nb_batch))
                 nb_batch logits target validation ms)"

definition update_metrics ::
  "('s, 'x, 'z, 'l, 'a, 'v) base \<Rightarrow> dict \<Rightarrow> nat \<Rightarrow> 'a pyval \<Rightarrow> 'a pyval \<Rightarrow> 'a validation_arg
     \<Rightarrow> error + dict" where
  "update_metrics b vals nb_batch logits target validation =
     (case logits of
        PyNone \<Rightarrow> Inr vals
      | Tensor lg \<Rightarrow>
          (case target of
             PyNone \<Rightarrow> Inr vals
           | Tensor tg \<Rightarrow> metrics_loop b vals nb_batch lg tg validation (metrics b)))"

text \<open>
  The call \<open>self.update_metrics(values, nb_batch, *args, ...)\<close>: the outputs of the loss
  callable after the first bind to \<open>logits\<close>, \<open>target\<close> and \<open>validation\<close> in this order.
  \<open>kw\<close> is the keyword \<open>validation=True\<close> of \<open>test\<close> (\<open>None\<close> in \<open>train\<close>); a positional
  argument that has no parameter left, or that meets the keyword, is a \<open>TypeError\<close>.
\<close>

definition call_update_metrics ::
  "('s, 'x, 'z, 'l, 'a, 'v) base \<Rightarrow> dict \<Rightarrow> nat \<Rightarrow> 'a pyval list \<Rightarrow> bool option
     \<Rightarrow> error + dict" where
  "call_update_metrics b vals nb_batch args kw =
     (let flag = Flag (case kw of None \<Rightarrow> False | Some f \<Rightarrow> f)
      in case args of
           [] \<Rightarrow> update_metrics b vals nb_batch PyNone PyNone flag
         | [lg] \<Rightarrow> update_metrics b vals nb_batch lg PyNone flag
         | [lg, tg] \<Rightarrow> update_metrics b vals nb_batch lg tg flag
         | [lg, tg, v] \<Rightarrow>
             (case kw of
                None \<Rightarrow> update_metrics b vals nb_batch lg tg (Positional v)
              | Some f \<Rightarrow> Inl TypeError)
         | lg # tg # v # w # ws \<Rightarrow> Inl TypeError)"

subsection \<open>\<open>SimCLR.train\<close>\<close>

record ('s, 'v) visualizer =
  refresh_current_metrics :: "'s \<Rightarrow> 's"
  display_images :: "'v list \<Rightarrow> 's \<Rightarrow> 's"

datatype pyfloat = NaN | Float real

text \<open>\<open>np.mean\<close> of a list of floats; of the empty list it is \<open>nan\<close>.\<close>

definition np_mean :: "real list \<Rightarrow> pyfloat" where
  "np_mean xs = (if xs = [] then NaN else Float (sum_list xs / real (length xs)))"

text \<open>\<open>self.loss(z_i, z_j, labels)\<close> or \<open>self.loss(z_i, z_j)\<close>, recorded in the trace.\<close>

definition call_loss ::
  "('s, 'x, 'z, 'l, 'a, 'v) base \<Rightarrow> 'z list \<Rightarrow> 'z list \<Rightarrow> 'l list option
     \<Rightarrow> ('s, 'x, 'z, 'l, 'a, 'v) ctx
     \<Rightarrow> (real \<times> 'a pyval list) \<times> ('s, 'x, 'z, 'l, 'a, 'v) ctx" where
  "call_loss b z_i z_j lbs c =
     (case c of (s, tr) \<Rightarrow>
        (let args = (case lbs of Some lb \<Rightarrow> Loss3 z_i z_j lb | None \<Rightarrow> Loss2 z_i z_j)
         in case loss b args s of
              ((batch_loss, rest), s') \<Rightarrow>
                ((batch_loss, rest), (s', tr @ [LossCall args batch_loss rest]))))"

text \<open>\<open>self.loss.get_aux_losses() if hasattr(self.loss, 'get_aux_losses') else dict()\<close>.\<close>

definition aux_losses_of ::
  "('s, 'x, 'z, 'l, 'a, 'v) base \<Rightarrow> ('s, 'x, 'z, 'l, 'a, 'v) ctx
     \<Rightarrow> (string \<times> real) list \<times> ('s, 'x, 'z, 'l, 'a, 'v) ctx" where
  "aux_losses_of b c =
     (case c of (s, tr) \<Rightarrow>
        (case get_aux_losses b of
           None \<Rightarrow> ([], (s, tr))
         | Some g \<Rightarrow> (g s, (s, tr @ [GetAuxLosses (g s)]))))"

text \<open>
  The loop \<open>for name, aux_loss in aux_losses.items()\<close>. It runs inside the loop over the
  batches, where \<open>nb_batch = len(loader)\<close> is positive.
\<close>

definition add_aux_losses :: "bool \<Rightarrow> nat \<Rightarrow> (string \<times> real) list \<Rightarrow> dict \<Rightarrow> dict" where
  "add_aux_losses validation nb_batch aux vals =
     fold (\<lambda>(name, aux_loss) v.
             accumulate v (validation_name validation name) (aux_loss / real nb_batch))
          aux vals"

text \<open>The block \<open>if iteration % 40 == 0\<close>.\<close>

definition refresh_visuals ::
  "('s, 'x, 'z, 'l, 'a, 'v) base \<Rightarrow> ('s, 'v) visualizer option \<Rightarrow> nat
     \<Rightarrow> ('s, 'x, 'z, 'l, 'a, 'v) ctx \<Rightarrow> ('s, 'x, 'z, 'l, 'a, 'v) ctx" where
  "refresh_visuals b vz iteration c =
     (case c of (s, tr) \<Rightarrow>
        if iteration mod 40 = 0 then
          (case vz of
             None \<Rightarrow> (s, tr)
           | Some z \<Rightarrow>
               (let s1 = refresh_current_metrics z s; tr1 = tr @ [RefreshCurrentMetrics]
                in case get_current_visuals b of
                     None \<Rightarrow> (s1, tr1)
                   | Some g \<Rightarrow>
                       (case g s1 of
                          (visuals, s2) \<Rightarrow>
                            (display_images z visuals s2,
                             tr1 @ [GetCurrentVisuals visuals, DisplayImages visuals]))))
        else (s, tr))"

text \<open>
  The body of \<open>for dataitem in loader\<close>, on the loop variables: the world and the trace,
  \<open>values\<close>, \<open>losses\<close> and \<open>iteration\<close>.
\<close>

type_synonym ('s, 'x, 'z, 'l, 'a, 'v) train_state =
  "('s, 'x, 'z, 'l, 'a, 'v) ctx \<times> dict \<times> real list \<times> nat"

definition train_batch ::
  "('s, 'x, 'z, 'l, 'a, 'v) base \<Rightarrow> nat \<Rightarrow> ('s, 'v) visualizer option \<Rightarrow> ('x, 'l) dataitem
     \<Rightarrow> ('s, 'x, 'z, 'l, 'a, 'v) train_state \<Rightarrow> error + ('s, 'x, 'z, 'l, 'a, 'v) train_state" where
  "train_batch b nb_batch vz d st =
     (case st of (c, vals, losses, iteration) \<Rightarrow>
        (case c of (s, tr) \<Rightarrow>
           (case get_output_pairs b (inputs d) (zero_grad b s, tr @ [ZeroGrad]) of
              ((z_i, z_j), c1) \<Rightarrow>
                (case call_loss b z_i z_j (labels d) c1 of
                   ((batch_loss, args), (s2, tr2)) \<Rightarrow>
                     (case aux_losses_of b (step b (backward b s2), tr2 @ [Backward, OptimizerStep]) of
                        (aux, c3) \<Rightarrow>
                          (let vals1 = add_aux_losses False nb_batch aux vals;
                               losses1 = losses @ [batch_loss];
                               c4 = refresh_visuals b vz iteration c3
                           in case call_update_metrics b vals1 nb_batch args None of
                                Inl e \<Rightarrow> Inl e
                              | Inr vals2 \<Rightarrow> Inr (c4, vals2, losses1, iteration + 1)))))))"

fun train_loop ::
  "('s, 'x, 'z, 'l, 'a, 'v) base \<Rightarrow> nat \<Rightarrow> ('s, 'v) visualizer option \<Rightarrow> ('x, 'l) dataitem list
     \<Rightarrow> ('s, 'x, 'z, 'l, 'a, 'v) train_state \<Rightarrow> error + ('s, 'x, 'z, 'l, 'a, 'v) train_state" where
  "train_loop b nb_batch vz [] st = Inr st"
| "train_loop b nb_batch vz (d # ds) st =
     (case train_batch b nb_batch vz d st of
        Inl e \<Rightarrow> Inl e
      | Inr st' \<Rightarrow> train_loop b nb_batch vz ds st')"

text \<open>\<open>train\<close> returns \<open>(loss, values)\<close>; the model adds the world and the trace it leaves.\<close>

definition train ::
  "('s, 'x, 'z, 'l, 'a, 'v) base \<Rightarrow> ('x, 'l) loader \<Rightarrow> ('s, 'v) visualizer option \<Rightarrow> 's
     \<Rightarrow> error + (pyfloat \<times> dict \<times> ('s, 'x, 'z, 'l, 'a, 'v) ctx)" where
  "train b l vz s =
     (case train_loop b (len_loader l) vz (iterate l 0)
             ((model_train b s, [ModelTrain]), Map.empty, [], 0) of
        Inl e \<Rightarrow> Inl e
      | Inr (c, vals, losses, iteration) \<Rightarrow> Inr (np_mean losses, vals, c))"

subsection \<open>\<open>SimCLR.test\<close>\<close>

text \<open>\<open>if with_visuals: visuals.append(self.model.get_current_visuals())\<close>.\<close>

definition append_visuals ::
  "('s, 'x, 'z, 'l, 'a, 'v) base \<Rightarrow> bool \<Rightarrow> 'v list list \<Rightarrow> ('s, 'x, 'z, 'l, 'a, 'v) ctx
     \<Rightarrow> error + ('v list list \<times> ('s, 'x, 'z, 'l, 'a, 'v) ctx)" where
  "append_visuals b with_visuals visuals c =
     (case c of (s, tr) \<Rightarrow>
        if with_visuals then
          (case get_current_visuals b of
             None \<Rightarrow> Inl AttributeError
           | Some g \<Rightarrow>
               (case g s of (v, s') \<Rightarrow> Inr (visuals @ [v], (s', tr @ [GetCurrentVisuals v]))))
        else Inr (visuals, (s, tr)))"

type_synonym ('s, 'x, 'z, 'l, 'a, 'v) test_state =
  "('s, 'x, 'z, 'l, 'a, 'v) ctx \<times> dict \<times> real \<times> 'v list list"

definition test_batch ::
  "('s, 'x, 'z, 'l, 'a, 'v) base \<Rightarrow> nat \<Rightarrow> bool \<Rightarrow> ('x, 'l) dataitem
     \<Rightarrow> ('s, 'x, 'z, 'l, 'a, 'v) test_state \<Rightarrow> error + ('s, 'x, 'z, 'l, 'a, 'v) test_state" where
  "test_batch b nb_batch with_visuals d st =
     (case st of (c, vals, loss_sum, visuals) \<Rightarrow>
        (case get_output_pairs b (inputs d) c of
           ((z_i, z_j), c1) \<Rightarrow>
             (case append_visuals b with_visuals visuals c1 of
                Inl e \<Rightarrow> Inl e
              | Inr (visuals1, c2) \<Rightarrow>
                  (case call_loss b z_i z_j (labels d) c2 of
                     ((batch_loss, args), c3) \<Rightarrow>
                       (let loss_sum1 = loss_sum + batch_loss / real nb_batch
                        in case call_update_metrics b vals nb_batch args (Some True) of
                             Inl e \<Rightarrow> Inl e
                           | Inr vals1 \<Rightarrow>
                               (case aux_losses_of b c3 of
                                  (aux, c4) \<Rightarrow>
                                    Inr (c4, add_aux_losses True nb_batch aux vals1,
                                         loss_sum1, visuals1)))))))"

fun test_loop ::
  "('s, 'x, 'z, 'l, 'a, 'v) base \<Rightarrow> nat \<Rightarrow> bool \<Rightarrow> ('x, 'l) dataitem list
     \<Rightarrow> ('s, 'x, 'z, 'l, 'a, 'v) test_state \<Rightarrow> error + ('s, 'x, 'z, 'l, 'a, 'v) test_state" where
  "test_loop b nb_batch with_visuals [] st = Inr st"
| "test_loop b nb_batch with_visuals (d # ds) st =
     (case test_batch b nb_batch with_visuals d st of
        Inl e \<Rightarrow> Inl e
      | Inr st' \<Rightarrow> test_loop b nb_batch with_visuals ds st')"

text \<open>
  The value \<open>test\<close> returns: \<open>y\<close>, \<open>y_true\<close>, \<open>X\<close>, \<open>loss\<close>, \<open>values\<close> and, with
  \<open>with_visuals\<close>, the concatenated visuals; the model adds the world and the trace.
\<close>

record ('s, 'x, 'z, 'l, 'a, 'v) test_result =
  y :: "'a list"
  y_true :: "'a list"
  X :: "('x \<times> 'x) list"
  loss_value :: real
  metric_values :: dict
  visuals_out :: "'v list option"
  final_ctx :: "('s, 'x, 'z, 'l, 'a, 'v) ctx"

definition test ::
  "('s, 'x, 'z, 'l, 'a, 'v) base \<Rightarrow> ('x, 'l) loader \<Rightarrow> bool \<Rightarrow> 's
     \<Rightarrow> error + ('s, 'x, 'z, 'l, 'a, 'v) test_result" where
  "test b l with_visuals s =
     (case test_loop b (len_loader l) with_visuals (iterate l 0)
             ((model_eval b s, [ModelEval]), Map.empty, 0, []) of
        Inl e \<Rightarrow> Inl e
      | Inr (c, vals, loss_sum, visuals) \<Rightarrow>
          Inr \<lparr>y = [], y_true = [], X = [], loss_value = loss_sum, metric_values = vals,
               visuals_out = (if with_visuals then Some (concat visuals) else None),
               final_ctx = c\<rparr>)"

subsection \<open>\<open>SimCLROpenBHB.__getitem__\<close> and \<open>SimCLRSubOpenBHB.__getitem__\<close>\<close>

text \<open>
  The parent dataset's \<open>__getitem__\<close> draws the augmentation of the sample from the
  state \<open>'r\<close> of numpy's random generator; \<open>np.random.seed()\<close> reseeds that state.
  \<open>np.stack((x1, x2), axis=0)\<close> is the array whose rows are \<open>x1\<close> and \<open>x2\<close>.
\<close>

record ('r, 'x, 'l) parent_dataset =
  np_random_seed :: "'r \<Rightarrow> 'r"
  getitem :: "int \<Rightarrow> 'r \<Rightarrow> ('x \<times> 'l) \<times> 'r"

definition np_stack :: "'x \<Rightarrow> 'x \<Rightarrow> 'x list" where
  "np_stack x1 x2 = [x1, x2]"

definition SimCLROpenBHB_getitem ::
  "('r, 'x, 'l) parent_dataset \<Rightarrow> int \<Rightarrow> 'r \<Rightarrow> ('x list \<times> 'l) \<times> 'r" where
  "SimCLROpenBHB_getitem OpenBHB idx r =
     (case getitem OpenBHB idx (np_random_seed OpenBHB r) of
        ((x1, y1), r1) \<Rightarrow>
          (case getitem OpenBHB idx r1 of
             ((x2, y1'), r2) \<Rightarrow> ((np_stack x1 x2, y1'), r2)))"

definition SimCLRSubOpenBHB_getitem ::
  "('r, 'x, 'l) parent_dataset \<Rightarrow> int \<Rightarrow> 'r \<Rightarrow> ('x list \<times> 'l) \<times> 'r" where
  "SimCLRSubOpenBHB_getitem SubOpenBHB idx r =
     (case getitem SubOpenBHB idx (np_random_seed SubOpenBHB r) of
        ((x1, y1), r1) \<Rightarrow>
          (case getitem SubOpenBHB idx r1 of
             ((x2, y1'), r2) \<Rightarrow> ((np_stack x1 x2, y1'), r2)))"

subsection \<open>Observations on traces and dictionaries\<close>

text \<open>What a trace records: the results of the loss callable, the inputs and outputs of the
  network, and the auxiliary losses read after each batch.\<close>

fun loss_results ::
  "('x, 'z, 'l, 'a, 'v) event list \<Rightarrow> (('z, 'l) loss_args \<times> real \<times> 'a pyval list) list" where
  "loss_results [] = []"
| "loss_results (LossCall a bl rest # tr) = (a, bl, rest) # loss_results tr"
| "loss_results (e # tr) = loss_results tr"

fun forwards :: "('x, 'z, 'l, 'a, 'v) event list \<Rightarrow> ('x list \<times> 'z list) list" where
  "forwards [] = []"
| "forwards (ModelForward xs zs # tr) = (xs, zs) # forwards tr"
| "forwards (e # tr) = forwards tr"

fun aux_results :: "('x, 'z, 'l, 'a, 'v) event list \<Rightarrow> (string \<times> real) list list" where
  "aux_results [] = []"
| "aux_results (GetAuxLosses aux # tr) = aux # aux_results tr"
| "aux_results (e # tr) = aux_results tr"

text \<open>The calls of the per-batch cycle, without their results.\<close>

datatype 'x cycle_call = CZeroGrad | CForward "'x list" | CLoss | CBackward | CStep

fun cycle :: "('x, 'z, 'l, 'a, 'v) event list \<Rightarrow> 'x cycle_call list" where
  "cycle [] = []"
| "cycle (ZeroGrad # tr) = CZeroGrad # cycle tr"
| "cycle (ModelForward xs zs # tr) = CForward xs # cycle tr"
| "cycle (LossCall a bl rest # tr) = CLoss # cycle tr"
| "cycle (Backward # tr) = CBackward # cycle tr"
| "cycle (OptimizerStep # tr) = CStep # cycle tr"
| "cycle (e # tr) = cycle tr"

definition batch_cycle :: "('x, 'l) dataitem \<Rightarrow> 'x cycle_call list" where
  "batch_cycle d =
     [CZeroGrad, CForward (map fst (inputs d)), CForward (map snd (inputs d)),
      CLoss, CBackward, CStep]"

text \<open>Consecutive outputs of the network, two by two.\<close>

fun pairs :: "'b list \<Rightarrow> ('b \<times> 'b) list" where
  "pairs (u # v # ws) = (u, v) # pairs ws"
| "pairs ws = []"

definition expected_loss_args :: "('x, 'l) dataitem \<Rightarrow> 'z list \<times> 'z list \<Rightarrow> ('z, 'l) loss_args" where
  "expected_loss_args d zz =
     (case labels d of
        Some lb \<Rightarrow> Loss3 (fst zz) (snd zz) lb
      | None \<Rightarrow> Loss2 (fst zz) (snd zz))"

text \<open>Adding a list of named amounts to a dictionary, and the dictionary this gives from
  the empty one: every name that occurs, with the sum of its amounts.\<close>

definition accumulate_all :: "(string \<times> real) list \<Rightarrow> dict \<Rightarrow> dict" where
  "accumulate_all cs vals = fold (\<lambda>(name, x) v. accumulate v name x) cs vals"

definition totals :: "(string \<times> real) list \<Rightarrow> dict" where
  "totals cs name =
     (if name \<in> fst ` set cs then Some (sum_list (map snd (filter (\<lambda>c. fst c = name) cs)))
      else None)"

text \<open>The named amounts one batch adds: for each metric, when the loss call gave both
  \<open>logits\<close> and \<open>target\<close>; and for each auxiliary loss.\<close>

fun metric_entries ::
  "(string \<times> ('a \<Rightarrow> 'a \<Rightarrow> real)) list \<Rightarrow> bool \<Rightarrow> nat \<Rightarrow> 'a pyval list
     \<Rightarrow> (string \<times> real) list" where
  "metric_entries ms validation nb_batch [Tensor lg, Tensor tg] =
     map (\<lambda>(name, m). (validation_name validation name, m lg tg / real nb_batch)) ms"
| "metric_entries ms validation nb_batch rest = []"

definition aux_entries :: "bool \<Rightarrow> nat \<Rightarrow> (string \<times> real) list \<Rightarrow> (string \<times> real) list" where
  "aux_entries validation nb_batch aux =
     map (\<lambda>(name, x). (validation_name validation name, x / real nb_batch)) aux"

text \<open>All the named amounts of a run, read off its trace.\<close>

definition run_entries ::
  "(string \<times> ('a \<Rightarrow> 'a \<Rightarrow> real)) list \<Rightarrow> bool \<Rightarrow> nat \<Rightarrow> ('x, 'z, 'l, 'a, 'v) event list
     \<Rightarrow> (string \<times> real) list" where
  "run_entries ms validation nb_batch tr =
     aux_entries validation nb_batch (concat (aux_results tr)) @
     concat (map (\<lambda>r. metric_entries ms validation nb_batch (snd (snd r))) (loss_results tr))"

text \<open>The value of a metric on the further outputs \<open>(logits, target)\<close> of a loss call.\<close>

fun metric_on :: "('a \<Rightarrow> 'a \<Rightarrow> real) \<Rightarrow> 'a pyval list \<Rightarrow> real" where
  "metric_on m [Tensor lg, Tensor tg] = m lg tg"
| "metric_on m rest = 0"

subsection \<open>Concrete collaborators\<close>

text \<open>A small network, loss and loader on natural numbers, on which the theorems below are
  instantiated.\<close>

definition example_base :: "(nat, nat, nat, nat, nat, nat) base" where
  "example_base =
     \<lparr>model = (\<lambda>xs s. (map (\<lambda>x. x + s) xs, s)),
      model_train = (\<lambda>s. s),
      model_eval = (\<lambda>s. s),
      get_current_visuals = None,
      zero_grad = (\<lambda>s. s),
      step = Suc,
      loss = (\<lambda>a s. ((case a of Loss2 u v \<Rightarrow> 1 | Loss3 u v lb \<Rightarrow> 3, [Tensor 2, Tensor 4]), s)),
      backward = (\<lambda>s. s),
      get_aux_losses = Some (\<lambda>s. [(''reg'', 2)]),
      metrics = [(''acc'', \<lambda>lg tg. real (lg + tg))],
      tensor_bool = (\<lambda>t. Some (t \<noteq> 0))\<rparr>"

definition quiet_base :: "(nat, nat, nat, nat, nat, nat) base" where
  "quiet_base = example_base\<lparr>loss := (\<lambda>a s. ((1, []), s))\<rparr>"


definition visual_base :: "(nat, nat, nat, nat, nat, nat) base" where
  "visual_base = example_base\<lparr>get_current_visuals := Some (\<lambda>s. ([s], s))\<rparr>"

definition example_batches :: "(nat, nat) dataitem list" where
  "example_batches =
     [\<lparr>inputs = [(1, 2), (3, 4)], labels = Some [7, 8]\<rparr>, \<lparr>inputs = [(5, 6)], labels = Some [9]\<rparr>]"

definition example_loader :: "(nat, nat) loader" where
  "example_loader = \<lparr>sampler = SequentialSampler, iterate = (\<lambda>k. example_batches)\<rparr>"

definition random_loader :: "(nat, nat) loader" where
  "random_loader = \<lparr>sampler = RandomSampler, iterate = (\<lambda>k. example_batches)\<rparr>"

definition unlabelled_loader :: "(nat, nat) loader" where
  "unlabelled_loader =
     \<lparr>sampler = SequentialSampler, iterate = (\<lambda>k. [\<lparr>inputs = [(1, 2)], labels = None\<rparr>])\<rparr>"

definition growing_loader :: "(nat, nat) loader" where
  "growing_loader =
     \<lparr>sampler = SequentialSampler,
      iterate = (\<lambda>k. [\<lparr>inputs = [(1, 2)], labels = Some (replicate (Suc k) 7)\<rparr>])\<rparr>"

definition reordered_loader :: "(nat, nat) loader" where
  "reordered_loader =
     \<lparr>sampler = SequentialSampler,
      iterate = (\<lambda>k. [\<lparr>inputs = [(1, 2)], labels = Some [k]\<rparr>])\<rparr>"

definition example_dataset :: "(nat, nat, nat) parent_dataset" where
  "example_dataset =
     \<lparr>np_random_seed = (\<lambda>r. r + 100),
      getitem = (\<lambda>idx r. ((nat idx + r, nat idx), Suc r))\<rparr>"

subsection \<open>The loops in the words of the specification\<close>

text \<open>
  What the specification says of a batch, written on the collaborators alone: no trace is
  kept and no dictionary is filled. The network is applied to the first views and then to
  the second views of the batch; the loss callable is applied to the two outputs, and to
  the labels exactly when the batch has labels. What each batch gives is kept as a
  \<open>batch_outcome\<close>: the two outputs of the network, the arguments the loss callable was
  applied to, the loss value and the further outputs it returned, and the auxiliary
  losses read after the batch.
\<close>

record ('z, 'l, 'a) batch_outcome =
  model_outputs :: "'z list \<times> 'z list"
  invoked :: "('z, 'l) loss_args"
  returned_loss :: real
  returned_rest :: "'a pyval list"
  aux_read :: "(string \<times> real) list"

definition forward_views ::
  "('s, 'x, 'z, 'l, 'a, 'v) base \<Rightarrow> ('x, 'l) dataitem \<Rightarrow> 's \<Rightarrow> ('z list \<times> 'z list) \<times> 's" where
  "forward_views b d s =
     (case model b (map fst (inputs d)) s of (z_i, s1) \<Rightarrow>
        (case model b (map snd (inputs d)) s1 of (z_j, s2) \<Rightarrow> ((z_i, z_j), s2)))"

definition loss_arguments :: "('x, 'l) dataitem \<Rightarrow> 'z list \<times> 'z list \<Rightarrow> ('z, 'l) loss_args" where
  "loss_arguments d outs =
     (if labels d = None then Loss2 (fst outs) (snd outs)
      else Loss3 (fst outs) (snd outs) (the (labels d)))"

definition read_aux :: "('s, 'x, 'z, 'l, 'a, 'v) base \<Rightarrow> 's \<Rightarrow> (string \<times> real) list" where
  "read_aux b s = (case get_aux_losses b of None \<Rightarrow> [] | Some g \<Rightarrow> g s)"

text \<open>
  The per-batch cycle of training: \<open>zero_grad\<close>, the forward pass of both views, the
  loss, \<open>backward\<close>, the optimizer step.
\<close>

definition training_cycle ::
  "('s, 'x, 'z, 'l, 'a, 'v) base \<Rightarrow> ('x, 'l) dataitem \<Rightarrow> 's \<Rightarrow> ('z, 'l, 'a) batch_outcome \<times> 's" where
  "training_cycle b d s =
     (case forward_views b d (zero_grad b s) of (outs, s1) \<Rightarrow>
        (case loss b (loss_arguments d outs) s1 of ((value, further), s2) \<Rightarrow>
           (\<lparr>model_outputs = outs, invoked = loss_arguments d outs, returned_loss = value,
             returned_rest = further, aux_read = read_aux b (step b (backward b s2))\<rparr>,
            step b (backward b s2))))"

text \<open>What the optional visualizer does to the world after the batch number \<open>n\<close>.\<close>

definition visualizer_effect ::
  "('s, 'x, 'z, 'l, 'a, 'v) base \<Rightarrow> ('s, 'v) visualizer option \<Rightarrow> nat \<Rightarrow> 's \<Rightarrow> 's" where
  "visualizer_effect b vz n s =
     (if n mod 40 = 0 then
        (case vz of
           None \<Rightarrow> s
         | Some z \<Rightarrow>
             (case get_current_visuals b of
                None \<Rightarrow> refresh_current_metrics z s
              | Some g \<Rightarrow>
                  (case g (refresh_current_metrics z s) of (pics, s1) \<Rightarrow> display_images z pics s1)))
      else s)"

fun training_cycles ::
  "('s, 'x, 'z, 'l, 'a, 'v) base \<Rightarrow> ('s, 'v) visualizer option \<Rightarrow> ('x, 'l) dataitem list \<Rightarrow> nat
     \<Rightarrow> 's \<Rightarrow> ('z, 'l, 'a) batch_outcome list \<times> 's" where
  "training_cycles b vz [] n s = ([], s)"
| "training_cycles b vz (d # ds) n s =
     (case training_cycle b d s of (out, s1) \<Rightarrow>
        (case training_cycles b vz ds (Suc n) (visualizer_effect b vz n s1) of
           (outs, s2) \<Rightarrow> (out # outs, s2)))"

definition training_run ::
  "('s, 'x, 'z, 'l, 'a, 'v) base \<Rightarrow> ('x, 'l) loader \<Rightarrow> ('s, 'v) visualizer option \<Rightarrow> 's
     \<Rightarrow> ('z, 'l, 'a) batch_outcome list \<times> 's" where
  "training_run b l vz s = training_cycles b vz (iterate l 0) 0 (model_train b s)"

text \<open>
  The per-batch step of evaluation: the forward pass of both views, the visuals of the
  network when they are asked for, the loss.
\<close>

definition visuals_effect :: "('s, 'x, 'z, 'l, 'a, 'v) base \<Rightarrow> bool \<Rightarrow> 's \<Rightarrow> 's" where
  "visuals_effect b with_visuals s =
     (if with_visuals then (case get_current_visuals b of None \<Rightarrow> s | Some g \<Rightarrow> snd (g s))
      else s)"

definition evaluation_step ::
  "('s, 'x, 'z, 'l, 'a, 'v) base \<Rightarrow> bool \<Rightarrow> ('x, 'l) dataitem \<Rightarrow> 's
     \<Rightarrow> ('z, 'l, 'a) batch_outcome \<times> 's" where
  "evaluation_step b with_visuals d s =
     (case forward_views b d s of (outs, s1) \<Rightarrow>
        (case loss b (loss_arguments d outs) (visuals_effect b with_visuals s1) of
           ((value, further), s2) \<Rightarrow>
             (\<lparr>model_outputs = outs, invoked = loss_arguments d outs, returned_loss = value,
               returned_rest = further, aux_read = read_aux b s2\<rparr>, s2)))"

fun evaluation_steps ::
  "('s, 'x, 'z, 'l, 'a, 'v) base \<Rightarrow> bool \<Rightarrow> ('x, 'l) dataitem list \<Rightarrow> 's
     \<Rightarrow> ('z, 'l, 'a) batch_outcome list \<times> 's" where
  "evaluation_steps b with_visuals [] s = ([], s)"
| "evaluation_steps b with_visuals (d # ds) s =
     (case evaluation_step b with_visuals d s of (out, s1) \<Rightarrow>
        (case evaluation_steps b with_visuals ds s1 of (outs, s2) \<Rightarrow> (out # outs, s2)))"

definition evaluation_run ::
  "('s, 'x, 'z, 'l, 'a, 'v) base \<Rightarrow> ('x, 'l) loader \<Rightarrow> bool \<Rightarrow> 's
     \<Rightarrow> ('z, 'l, 'a) batch_outcome list \<times> 's" where
  "evaluation_run b l with_visuals s =
     evaluation_steps b with_visuals (iterate l 0) (model_eval b s)"

text \<open>What a trace should record of a run, given its batches and their outcomes.\<close>

definition logged_loss_calls ::
  "('z, 'l, 'a) batch_outcome list \<Rightarrow> (('z, 'l) loss_args \<times> real \<times> 'a pyval list) list" where
  "logged_loss_calls outs = map (\<lambda>out. (invoked out, returned_loss out, returned_rest out)) outs"

definition logged_forwards ::
  "('x, 'l) dataitem list \<Rightarrow> ('z, 'l, 'a) batch_outcome list \<Rightarrow> ('x list \<times> 'z list) list" where
  "logged_forwards ds outs =
     concat (map2 (\<lambda>d out. [(map fst (inputs d), fst (model_outputs out)),
                             (map snd (inputs d), snd (model_outputs out))]) ds outs)"

text \<open>Collaborators whose world is the list of the calls they received.\<close>

datatype call =
    CallModelTrain
  | CallModelEval
  | CallZeroGrad
  | CallModel "nat list"
  | CallVisuals
  | CallLoss "(nat, nat) loss_args"
  | CallBackward
  | CallStep

definition recording_base :: "(call list, nat, nat, nat, nat, nat) base" where
  "recording_base =
     \<lparr>model = (\<lambda>xs s. (map (\<lambda>x. 10 * x) xs, s @ [CallModel xs])),
      model_train = (\<lambda>s. s @ [CallModelTrain]),
      model_eval = (\<lambda>s. s @ [CallModelEval]),
      get_current_visuals = Some (\<lambda>s. ([], s @ [CallVisuals])),
      zero_grad = (\<lambda>s. s @ [CallZeroGrad]),
      step = (\<lambda>s. s @ [CallStep]),
      loss = (\<lambda>a s. ((real (length s), [Tensor 2, Tensor 4]), s @ [CallLoss a])),
      backward = (\<lambda>s. s @ [CallBackward]),
      get_aux_losses = Some (\<lambda>s. [(''reg'', real (length s))]),
      metrics = [(''acc'', \<lambda>lg tg. real (lg + tg))],
      tensor_bool = (\<lambda>t. Some (t \<noteq> 0))\<rparr>"

definition mixed_loader :: "(nat, nat) loader" where
  "mixed_loader =
     \<lparr>sampler = SequentialSampler,
      iterate = (\<lambda>k. [\<lparr>inputs = [(1, 2), (3, 4)], labels = Some [7, 8]\<rparr>,
                      \<lparr>inputs = [(5, 6)], labels = None\<rparr>])\<rparr>"

section \<open>Properties\<close>

subsection \<open>Evaluating the integer-to-double conversion\<close>

lemma bit_length_0: "bit_length 0 = 0"
  by (simp add: bit_length.simps)

lemma bit_length_1: "bit_length (Suc 0) = 1"
  by (simp add: bit_length.simps)

lemma bit_length_numeral: "bit_length (numeral k) = Suc (bit_length (numeral k div 2))"
  by (subst bit_length.simps) simp

lemmas bit_length_eval = bit_length_0 bit_length_1 bit_length_numeral

lemma bit_length_le: "bit_length n \<le> k \<longleftrightarrow> n < 2 ^ k"
proof (induction n arbitrary: k rule: bit_length.induct)
  case (1 n)
  show ?case
  proof (cases "n = 0")
    case True
    then show ?thesis by (simp add: bit_length.simps)
  next
    case False
    show ?thesis
    proof (cases k)
      case 0
      with False show ?thesis by (simp add: bit_length.simps [of n])
    next
      case (Suc j)
      have "bit_length (n div 2) \<le> j \<longleftrightarrow> n div 2 < 2 ^ j"
        using 1 False by simp
      moreover have "n div 2 < 2 ^ j \<longleftrightarrow> n < 2 ^ Suc j"
        by auto
      ultimately show ?thesis
        using False Suc by (simp add: bit_length.simps [of n])
    qed
  qed
qed

lemma round_half_even_small: "n \<le> 2 ^ 53 \<Longrightarrow> round_half_even n = n"
proof (cases "n = 2 ^ 53")
  case True
  have "round_half_even 9007199254740992 = 9007199254740992"
    by (simp add: round_half_even_def bit_length_eval Let_def)
  with True show ?thesis by simp
next
  case False
  assume "n \<le> 2 ^ 53"
  with False have "n < 2 ^ 53" by simp
  then have "bit_length n \<le> 53" by (simp only: bit_length_le)
  then show ?thesis by (simp add: round_half_even_def)
qed

lemma long_as_double_small:
  assumes "\<bar>M\<bar> \<le> 2 ^ 53"
  shows "long_as_double M = Inr M"
proof -
  have le: "nat \<bar>M\<bar> \<le> 2 ^ 53"
    using assms by (simp add: nat_le_iff)
  then have r: "round_half_even (nat \<bar>M\<bar>) = nat \<bar>M\<bar>"
    by (rule round_half_even_small)
  have "(2::nat) ^ 53 < 2 ^ 1024"
    by (rule power_strict_increasing) simp_all
  with le have lt: "\<not> (2::nat) ^ 1024 \<le> nat \<bar>M\<bar>"
    by linarith
  have "sgn M * \<bar>M\<bar> = M"
    by (rule sgn_mult_abs)
  with r lt show ?thesis
    by (simp add: long_as_double_def Let_def del: power_numeral)
qed

lemma half_eq_iff_even: "((of_int (M div 2) :: rat) = of_int M / 2) \<longleftrightarrow> even M"
proof
  assume "(of_int (M div 2) :: rat) = of_int M / 2"
  then have "(of_int (2 * (M div 2)) :: rat) = of_int M" by simp
  then have "2 * (M div 2) = M" by (simp only: of_int_eq_iff)
  then show "even M" by presburger
next
  assume "even M"
  then obtain k where "M = 2 * k" by (auto elim: evenE)
  then show "(of_int (M div 2) :: rat) = of_int M / 2" by simp
qed

lemma even_sample_count_check_small:
  assumes "\<bar>M\<bar> \<le> 2 ^ 53"
  shows "even_sample_count_check M =
     (if even M then Inr () else Inl parity_error)"
  by (simp only: even_sample_count_check_def long_as_double_small [OF assms]
      sum.case half_eq_iff_even)

subsection \<open>The checks of \<open>features_avg_test\<close>\<close>

lemma np_array_error:
  "np_array xs = Inl e \<Longrightarrow> e = ValueError ''setting an array element with a sequence''"
  by (cases xs) (auto split: if_splits)

lemma first_row_error: "first_row a = Inl e \<Longrightarrow> e = IndexError"
  by (cases a rule: first_row.cases) auto

lemma swapaxes01_error: "swapaxes01 a = Inl e \<Longrightarrow> e = AxisError"
  by (cases a) auto

text \<open>
  Claim C2, as amended. For every integer \<open>M\<close> with \<open>|M| \<le> 2^53\<close> the even-sample-count
  check passes exactly when \<open>M\<close> is even, and for an odd \<open>M\<close> \<open>features_avg_test\<close> raises
  the \<open>AssertionError\<close> of that check whatever the loader is, so before touching it.
  The bound is needed: \<open>M/2.0\<close> rounds \<open>M\<close> to a double.
\<close>

theorem even_sample_count_check_53:
  assumes "\<bar>M\<bar> \<le> 2 ^ 53"
  shows "(even_sample_count_check M = Inr () \<longleftrightarrow> even M) \<and>
         (odd M \<longrightarrow> features_avg_test b l M s = Inl parity_error)"
  using even_sample_count_check_small [OF assms]
  by (auto simp: features_avg_test_def)

theorem even_sample_count_check_53_witness:
  "\<bar>3::int\<bar> \<le> 2 ^ 53 \<and> \<bar>10::int\<bar> \<le> 2 ^ 53 \<and> odd (3::int) \<and> even (10::int) \<and>
   even_sample_count_check 10 = Inr () \<and>
   features_avg_test example_base random_loader 3 0 = Inl parity_error"
proof -
  have h3: "\<bar>3::int\<bar> \<le> 2 ^ 53" and h10: "\<bar>10::int\<bar> \<le> 2 ^ 53" by simp_all
  show ?thesis
    using even_sample_count_check_53 [OF h3, of example_base random_loader 0]
      even_sample_count_check_53 [OF h10, of example_base random_loader 0]
    by simp
qed

text \<open>
  Claim C2 as stated fails: \<open>M = 2^53 + 1\<close> is odd, its double is \<open>2^53\<close>, and
  \<open>M//2 == M/2.0\<close> compares \<open>2^52\<close> with \<open>2^52\<close>. The check passes and the call goes on to
  the sampler check.
\<close>

theorem odd_sample_count_accepted:
  "odd (9007199254740993::int) \<and> even_sample_count_check 9007199254740993 = Inr () \<and>
   features_avg_test example_base random_loader 9007199254740993 0 = Inl sampler_error"
  by (simp add: features_avg_test_def even_sample_count_check_def long_as_double_def
      round_half_even_def bit_length_eval Let_def random_loader_def)

text \<open>
  Claim C3, as amended. Whenever the even-sample-count check passes,
  \<open>features_avg_test\<close> raises the \<open>ValueError\<close> of the sampler check if and only if the
  loader's sampler is not a \<open>SequentialSampler\<close>.
\<close>

theorem sampler_error_iff:
  assumes "even_sample_count_check M = Inr ()"
  shows "features_avg_test b l M s = Inl sampler_error \<longleftrightarrow> sampler l \<noteq> SequentialSampler"
  using assms
  by (auto simp: features_avg_test_def sampler_error_def order_error_def
      split: prod.splits sum.splits
      dest: np_array_error first_row_error swapaxes01_error)

theorem sampler_error_iff_witness:
  "even_sample_count_check 10 = Inr () \<and> sampler random_loader \<noteq> SequentialSampler \<and>
   features_avg_test example_base random_loader 10 0 = Inl sampler_error"
proof -
  have h: "even_sample_count_check 10 = Inr ()"
    by (simp add: even_sample_count_check_small)
  have r: "sampler random_loader \<noteq> SequentialSampler"
    by (simp add: random_loader_def)
  show ?thesis
    using h r sampler_error_iff [OF h, of example_base random_loader 0] by simp
qed

text \<open>
  Claim C3 as stated fails: with an odd \<open>M\<close> the first assertion raises before the sampler
  is looked at, so a loader with a random sampler gets an \<open>AssertionError\<close>, not the
  \<open>ValueError\<close>.
\<close>

theorem odd_count_precedes_sampler_check:
  "sampler random_loader = RandomSampler \<and>
   features_avg_test example_base random_loader 3 0 = Inl parity_error \<and>
   features_avg_test example_base random_loader 3 0 \<noteq> Inl sampler_error"
  by (simp add: features_avg_test_def even_sample_count_check_small random_loader_def
      parity_error_def sampler_error_def)

subsection \<open>The paired-augmentation datasets\<close>

text \<open>
  Claim C7. For every index, \<open>SimCLROpenBHB.__getitem__\<close> returns a pair whose first
  component has a leading axis of size 2 holding two views drawn one after the other
  (the second from the generator state the first draw left) from the parent's
  \<open>__getitem__\<close> at that index, and whose second component is the label the parent
  returned at the same index (on the second draw); \<open>SimCLRSubOpenBHB.__getitem__\<close> does
  the same.
\<close>

theorem getitem_pair:
  "SimCLROpenBHB_getitem ds idx r =
     (([fst (fst (getitem ds idx (np_random_seed ds r))),
        fst (fst (getitem ds idx (snd (getitem ds idx (np_random_seed ds r)))))],
       snd (fst (getitem ds idx (snd (getitem ds idx (np_random_seed ds r)))))),
      snd (getitem ds idx (snd (getitem ds idx (np_random_seed ds r))))) \<and>
   SimCLRSubOpenBHB_getitem ds idx r = SimCLROpenBHB_getitem ds idx r \<and>
   length (fst (fst (SimCLROpenBHB_getitem ds idx r))) = 2"
  by (simp add: SimCLROpenBHB_getitem_def SimCLRSubOpenBHB_getitem_def np_stack_def
      split: prod.splits)

subsection \<open>Dictionaries and traces\<close>

lemma loss_results_append: "loss_results (xs @ ys) = loss_results xs @ loss_results ys"
  by (induction xs rule: loss_results.induct) simp_all

lemma forwards_append: "forwards (xs @ ys) = forwards xs @ forwards ys"
  by (induction xs rule: forwards.induct) simp_all

lemma aux_results_append: "aux_results (xs @ ys) = aux_results xs @ aux_results ys"
  by (induction xs rule: aux_results.induct) simp_all

lemma cycle_append: "cycle (xs @ ys) = cycle xs @ cycle ys"
  by (induction xs rule: cycle.induct) simp_all

lemma run_entries_append:
  "mset (run_entries ms f nb (xs @ ys)) = mset (run_entries ms f nb xs) + mset (run_entries ms f nb ys)"
  by (simp add: run_entries_def aux_results_append loss_results_append aux_entries_def)

lemma accumulate_upd:
  "accumulate vals name x = vals(name \<mapsto> (case vals name of None \<Rightarrow> 0 | Some v \<Rightarrow> v) + x)"
  by (auto simp: accumulate_def Let_def split: option.splits)

lemma accumulate_all_Nil: "accumulate_all [] vals = vals"
  by (simp add: accumulate_all_def)

lemma accumulate_all_append:
  "accumulate_all (xs @ ys) vals = accumulate_all ys (accumulate_all xs vals)"
  by (simp add: accumulate_all_def)

lemma filter_key_empty: "name \<notin> fst ` set cs \<Longrightarrow> filter (\<lambda>c. fst c = name) cs = []"
  by (induction cs) auto

lemma accumulate_totals: "accumulate (totals cs) k x = totals (cs @ [(k, x)])"
proof
  fix name
  show "accumulate (totals cs) k x name = totals (cs @ [(k, x)]) name"
  proof (cases "name = k")
    case True
    then show ?thesis
      by (simp add: accumulate_upd totals_def filter_key_empty)
  next
    case False
    then show ?thesis
      by (simp add: accumulate_upd totals_def)
  qed
qed

lemma accumulate_all_totals: "accumulate_all cs (totals cs0) = totals (cs0 @ cs)"
proof (induction cs arbitrary: cs0)
  case Nil
  then show ?case by (simp add: accumulate_all_def)
next
  case (Cons c cs)
  obtain k x where c: "c = (k, x)" by (cases c)
  have "accumulate_all (c # cs) (totals cs0) = accumulate_all cs (accumulate (totals cs0) k x)"
    by (simp add: accumulate_all_def c)
  also have "\<dots> = totals ((cs0 @ [(k, x)]) @ cs)"
    by (simp only: accumulate_totals Cons.IH)
  finally show ?case by (simp add: c)
qed

lemma totals_Nil: "totals [] = Map.empty"
  by (simp add: totals_def fun_eq_iff)

lemma accumulate_all_empty: "accumulate_all cs Map.empty = totals cs"
  using accumulate_all_totals [of cs "[]"] by (simp add: totals_Nil)

lemma totals_mset:
  assumes "mset xs = mset ys"
  shows "totals xs = totals ys"
proof
  fix name
  have s: "set xs = set ys" using assms by (rule mset_eq_setD)
  have "mset (map snd (filter (\<lambda>c. fst c = name) xs)) = mset (map snd (filter (\<lambda>c. fst c = name) ys))"
    using assms by (simp only: mset_map mset_filter)
  then have "sum_mset (mset (map snd (filter (\<lambda>c. fst c = name) xs)))
           = sum_mset (mset (map snd (filter (\<lambda>c. fst c = name) ys)))"
    by simp
  then have "sum_list (map snd (filter (\<lambda>c. fst c = name) xs))
           = sum_list (map snd (filter (\<lambda>c. fst c = name) ys))"
    by (simp only: sum_mset_sum_list)
  with s show "totals xs name = totals ys name"
    by (simp add: totals_def)
qed

lemma metrics_loop_Flag:
  "0 < nb \<Longrightarrow> metrics_loop b vals nb lg tg (Flag f) ms =
     Inr (accumulate_all (metric_entries ms f nb [Tensor lg, Tensor tg]) vals)"
  by (induction ms arbitrary: vals) (auto simp: accumulate_all_def truth_value_def)

lemma add_aux_losses_eq:
  "add_aux_losses f nb aux vals = accumulate_all (aux_entries f nb aux) vals"
  by (induction aux arbitrary: vals) (auto simp: add_aux_losses_def accumulate_all_def aux_entries_def)

lemma call_update_metrics_two:
  assumes "0 < nb" "length rest \<le> 2"
  shows "call_update_metrics b vals nb rest kw =
     Inr (accumulate_all (metric_entries (metrics b) (case kw of None \<Rightarrow> False | Some f \<Rightarrow> f) nb rest) vals)"
proof -
  consider "rest = []" | u where "rest = [u]" | u v where "rest = [u, v]"
    using assms(2) by (cases rest rule: pairs.cases) auto
  then show ?thesis
  proof cases
    case 1
    then show ?thesis
      by (simp add: call_update_metrics_def update_metrics_def accumulate_all_def)
  next
    case 2
    then show ?thesis
      by (cases u) (simp_all add: call_update_metrics_def update_metrics_def accumulate_all_def)
  next
    case 3
    then show ?thesis
      using assms(1)
      by (cases u; cases v)
        (simp_all add: call_update_metrics_def update_metrics_def accumulate_all_def metrics_loop_Flag)
  qed
qed

subsection \<open>The loop of train\<close>

lemma get_output_pairs_cases:
  obtains zz s' where "get_output_pairs b inp (s, tr) =
     (zz, (s', tr @ [ModelForward (map fst inp) (fst zz), ModelForward (map snd inp) (snd zz)]))"
proof -
  obtain z_i s1 where m1: "model b (map fst inp) s = (z_i, s1)" by (cases "model b (map fst inp) s")
  obtain z_j s2 where m2: "model b (map snd inp) s1 = (z_j, s2)" by (cases "model b (map snd inp) s1")
  have "get_output_pairs b inp (s, tr) =
     ((z_i, z_j), (s2, tr @ [ModelForward (map fst inp) (fst (z_i, z_j)),
                            ModelForward (map snd inp) (snd (z_i, z_j))]))"
    by (simp add: get_output_pairs_def m1 m2)
  then show thesis by (rule that)
qed

lemma call_loss_cases:
  obtains bl rest s' where
    "call_loss b z_i z_j (labels d) (s, tr) =
       ((bl, rest), (s', tr @ [LossCall (expected_loss_args d (z_i, z_j)) bl rest]))"
    "rest = snd (fst (loss b (expected_loss_args d (z_i, z_j)) s))"
proof -
  obtain bl rest s' where l: "loss b (expected_loss_args d (z_i, z_j)) s = ((bl, rest), s')"
    by (metis surj_pair)
  have "call_loss b z_i z_j (labels d) (s, tr) =
       ((bl, rest), (s', tr @ [LossCall (expected_loss_args d (z_i, z_j)) bl rest]))"
    using l by (cases "labels d") (simp_all add: call_loss_def expected_loss_args_def)
  moreover have "rest = snd (fst (loss b (expected_loss_args d (z_i, z_j)) s))"
    by (simp add: l)
  ultimately show thesis by (rule that)
qed

lemma aux_losses_of_cases:
  obtains aux ext where
    "aux_losses_of b (s, tr) = (aux, (s, tr @ ext))"
    "concat (aux_results ext) = aux" "cycle ext = []" "loss_results ext = []" "forwards ext = []"
    "list_all (\<lambda>a. \<exists>g s0. get_aux_losses b = Some g \<and> a = g s0) (aux_results ext)"
proof (cases "get_aux_losses b")
  case None
  then have "aux_losses_of b (s, tr) = ([], (s, tr @ []))"
    by (simp add: aux_losses_of_def)
  then show thesis by (rule that) simp_all
next
  case (Some g)
  then have "aux_losses_of b (s, tr) = (g s, (s, tr @ [GetAuxLosses (g s)]))"
    by (simp add: aux_losses_of_def)
  then show thesis by (rule that) (use Some in auto)
qed

lemma refresh_visuals_cases:
  obtains s' ext where
    "refresh_visuals b vz it (s, tr) = (s', tr @ ext)"
    "aux_results ext = []" "cycle ext = []" "loss_results ext = []" "forwards ext = []"
proof -
  have "\<exists>s' ext. refresh_visuals b vz it (s, tr) = (s', tr @ ext) \<and>
     aux_results ext = [] \<and> cycle ext = [] \<and> loss_results ext = [] \<and> forwards ext = []"
  proof (cases "it mod 40 = 0")
    case False
    then have "refresh_visuals b vz it (s, tr) = (s, tr @ [])"
      by (simp add: refresh_visuals_def)
    then show ?thesis by fastforce
  next
    case True
    show ?thesis
    proof (cases vz)
      case None
      with True have "refresh_visuals b vz it (s, tr) = (s, tr @ [])"
        by (simp add: refresh_visuals_def)
      then show ?thesis by fastforce
    next
      case (Some z)
      show ?thesis
      proof (cases "get_current_visuals b")
        case None
        with True Some have "refresh_visuals b vz it (s, tr) =
            (refresh_current_metrics z s, tr @ [RefreshCurrentMetrics])"
          by (simp add: refresh_visuals_def)
        then show ?thesis by fastforce
      next
        case (Some g)
        obtain v s2 where "g (refresh_current_metrics z s) = (v, s2)"
          by (cases "g (refresh_current_metrics z s)")
        with True \<open>vz = Some z\<close> Some have "refresh_visuals b vz it (s, tr) =
            (display_images z v s2, tr @ [RefreshCurrentMetrics, GetCurrentVisuals v, DisplayImages v])"
          by (simp add: refresh_visuals_def)
        then show ?thesis by fastforce
      qed
    qed
  qed
  then show thesis using that by blast
qed

lemma run_entries_batch:
  assumes "loss_results seg = [(a, bl, rest)]" "concat (aux_results seg) = aux"
  shows "run_entries ms f nb seg = aux_entries f nb aux @ metric_entries ms f nb rest"
  using assms by (simp add: run_entries_def)

lemma train_batch_Inr:
  assumes nb: "0 < nb" and two: "\<And>a s. length (snd (fst (loss b a s))) \<le> 2"
  shows "\<exists>s' seg bl rest zz.
     train_batch b nb vz d ((s, tr), vals, losses, it) =
       Inr ((s', tr @ seg), accumulate_all (run_entries (metrics b) False nb seg) vals,
            losses @ [bl], Suc it) \<and>
     cycle seg = batch_cycle d \<and>
     loss_results seg = [(expected_loss_args d zz, bl, rest)] \<and>
     forwards seg = [(map fst (inputs d), fst zz), (map snd (inputs d), snd zz)] \<and>
     (\<exists>a s0. rest = snd (fst (loss b a s0))) \<and>
     list_all (\<lambda>a. \<exists>g s0. get_aux_losses b = Some g \<and> a = g s0) (aux_results seg)"
proof -
  obtain zz s1 where g: "get_output_pairs b (inputs d) (zero_grad b s, tr @ [ZeroGrad]) =
      (zz, (s1, (tr @ [ZeroGrad]) @ [ModelForward (map fst (inputs d)) (fst zz),
                                      ModelForward (map snd (inputs d)) (snd zz)]))"
    by (rule get_output_pairs_cases)
  define t1 where "t1 = tr @ [ZeroGrad, ModelForward (map fst (inputs d)) (fst zz),
                               ModelForward (map snd (inputs d)) (snd zz)]"
  obtain bl rest s2 where l: "call_loss b (fst zz) (snd zz) (labels d) (s1, t1) =
      ((bl, rest), (s2, t1 @ [LossCall (expected_loss_args d (fst zz, snd zz)) bl rest]))"
    and rest: "rest = snd (fst (loss b (expected_loss_args d (fst zz, snd zz)) s1))"
    by (rule call_loss_cases)
  have len: "length rest \<le> 2" unfolding rest by (rule two)
  define t2 where "t2 = t1 @ [LossCall (expected_loss_args d zz) bl rest, Backward, OptimizerStep]"
  obtain aux ext where a: "aux_losses_of b (step b (backward b s2), t2) =
      (aux, (step b (backward b s2), t2 @ ext))"
    and ax: "concat (aux_results ext) = aux" "cycle ext = []" "loss_results ext = []" "forwards ext = []"
    and ao: "list_all (\<lambda>a. \<exists>g s0. get_aux_losses b = Some g \<and> a = g s0) (aux_results ext)"
    by (rule aux_losses_of_cases)
  obtain s4 ext2 where r: "refresh_visuals b vz it (step b (backward b s2), t2 @ ext) = (s4, (t2 @ ext) @ ext2)"
    and rx: "aux_results ext2 = []" "cycle ext2 = []" "loss_results ext2 = []" "forwards ext2 = []"
    by (rule refresh_visuals_cases)
  define seg where "seg = [ZeroGrad, ModelForward (map fst (inputs d)) (fst zz),
      ModelForward (map snd (inputs d)) (snd zz),
      LossCall (expected_loss_args d zz) bl rest, Backward, OptimizerStep] @ ext @ ext2"
  have tseg: "t2 @ ext @ ext2 = tr @ seg"
    by (simp add: seg_def t2_def t1_def)
  have c: "cycle seg = batch_cycle d"
    by (simp add: seg_def cycle_append ax rx batch_cycle_def)
  have lr: "loss_results seg = [(expected_loss_args d zz, bl, rest)]"
    by (simp add: seg_def loss_results_append ax rx)
  have fw: "forwards seg = [(map fst (inputs d), fst zz), (map snd (inputs d), snd zz)]"
    by (simp add: seg_def forwards_append ax rx)
  have au: "concat (aux_results seg) = aux"
    by (simp add: seg_def aux_results_append ax rx)
  have ao': "list_all (\<lambda>a. \<exists>g s0. get_aux_losses b = Some g \<and> a = g s0) (aux_results seg)"
    using ao by (simp add: seg_def aux_results_append rx)
  have ro: "\<exists>a s0. rest = snd (fst (loss b a s0))"
    using rest by blast
  have re: "run_entries (metrics b) False nb seg =
      aux_entries False nb aux @ metric_entries (metrics b) False nb rest"
    using lr au by (rule run_entries_batch)
  have "train_batch b nb vz d ((s, tr), vals, losses, it) =
       Inr ((s4, tr @ seg), accumulate_all (run_entries (metrics b) False nb seg) vals,
            losses @ [bl], Suc it)"
    using g l a r
    by (simp add: train_batch_def case_prod_beta t1_def [symmetric] t2_def [symmetric] tseg
        call_update_metrics_two [OF nb len] add_aux_losses_eq re accumulate_all_append)
  with c lr fw ro ao' show ?thesis by blast
qed


lemma train_loop_Inr:
  assumes nb: "0 < nb" and two: "\<And>a s. length (snd (fst (loss b a s))) \<le> 2"
  shows "\<exists>s' ext cs.
     train_loop b nb vz ds ((s, tr), vals, losses, it) =
       Inr ((s', tr @ ext), accumulate_all cs vals,
            losses @ map (\<lambda>r. fst (snd r)) (loss_results ext), it + length ds) \<and>
     mset cs = mset (run_entries (metrics b) False nb ext) \<and>
     cycle ext = concat (map batch_cycle ds) \<and>
     map fst (loss_results ext) = map2 expected_loss_args ds (pairs (map snd (forwards ext))) \<and>
     map fst (forwards ext) = concat (map (\<lambda>d. [map fst (inputs d), map snd (inputs d)]) ds) \<and>
     length (loss_results ext) = length ds \<and>
     list_all (\<lambda>r. \<exists>a s0. snd (snd r) = snd (fst (loss b a s0))) (loss_results ext) \<and>
     list_all (\<lambda>a. \<exists>g s0. get_aux_losses b = Some g \<and> a = g s0) (aux_results ext)"
proof (induction ds arbitrary: s tr vals losses it)
  case Nil
  have "train_loop b nb vz [] ((s, tr), vals, losses, it) =
      Inr ((s, tr @ []), accumulate_all [] vals,
           losses @ map (\<lambda>r. fst (snd r)) (loss_results []), it + length [])"
    by (simp add: accumulate_all_Nil)
  moreover have "mset [] = mset (run_entries (metrics b) False nb [])"
    by (simp add: run_entries_def aux_entries_def)
  ultimately show ?case
    by (intro exI [of _ s] exI [of _ "[]"]) simp
next
  case (Cons d ds)
  obtain s1 seg bl rest zz where
    st: "train_batch b nb vz d ((s, tr), vals, losses, it) =
       Inr ((s1, tr @ seg), accumulate_all (run_entries (metrics b) False nb seg) vals,
            losses @ [bl], Suc it)"
    and c: "cycle seg = batch_cycle d"
    and lr: "loss_results seg = [(expected_loss_args d zz, bl, rest)]"
    and fw: "forwards seg = [(map fst (inputs d), fst zz), (map snd (inputs d), snd zz)]"
    and ro: "\<exists>a s0. rest = snd (fst (loss b a s0))"
    and ao: "list_all (\<lambda>a. \<exists>g s0. get_aux_losses b = Some g \<and> a = g s0) (aux_results seg)"
    using train_batch_Inr [OF nb two, of vz d s tr vals losses it]
    by (elim exE conjE) (rule that; (assumption | blast))
  obtain s' ext cs where
    lp: "train_loop b nb vz ds ((s1, tr @ seg),
           accumulate_all (run_entries (metrics b) False nb seg) vals, losses @ [bl], Suc it) =
       Inr ((s', (tr @ seg) @ ext),
            accumulate_all cs (accumulate_all (run_entries (metrics b) False nb seg) vals),
            (losses @ [bl]) @ map (\<lambda>r. fst (snd r)) (loss_results ext), Suc it + length ds)"
    and ms: "mset cs = mset (run_entries (metrics b) False nb ext)"
    and c': "cycle ext = concat (map batch_cycle ds)"
    and lr': "map fst (loss_results ext) = map2 expected_loss_args ds (pairs (map snd (forwards ext)))"
    and fw': "map fst (forwards ext) = concat (map (\<lambda>d. [map fst (inputs d), map snd (inputs d)]) ds)"
    and ln': "length (loss_results ext) = length ds"
    and ro': "list_all (\<lambda>r. \<exists>a s0. snd (snd r) = snd (fst (loss b a s0))) (loss_results ext)"
    and ao': "list_all (\<lambda>a. \<exists>g s0. get_aux_losses b = Some g \<and> a = g s0) (aux_results ext)"
    using Cons.IH [of s1 "tr @ seg" "accumulate_all (run_entries (metrics b) False nb seg) vals"
        "losses @ [bl]" "Suc it"]
    by (elim exE conjE) (rule that; (assumption | blast))
  have 1: "train_loop b nb vz (d # ds) ((s, tr), vals, losses, it) =
       Inr ((s', tr @ (seg @ ext)),
            accumulate_all (run_entries (metrics b) False nb seg @ cs) vals,
            losses @ map (\<lambda>r. fst (snd r)) (loss_results (seg @ ext)), it + length (d # ds))"
    by (simp add: st lp accumulate_all_append loss_results_append lr)
  have 2: "mset (run_entries (metrics b) False nb seg @ cs) =
       mset (run_entries (metrics b) False nb (seg @ ext))"
    by (simp add: ms run_entries_append)
  have 3: "cycle (seg @ ext) = concat (map batch_cycle (d # ds))"
    by (simp add: cycle_append c c')
  have 4: "map fst (loss_results (seg @ ext)) =
       map2 expected_loss_args (d # ds) (pairs (map snd (forwards (seg @ ext))))"
    by (simp add: loss_results_append forwards_append lr fw lr')
  have 5: "map fst (forwards (seg @ ext)) =
       concat (map (\<lambda>d. [map fst (inputs d), map snd (inputs d)]) (d # ds))"
    by (simp add: forwards_append fw fw')
  have 6: "length (loss_results (seg @ ext)) = length (d # ds)"
    by (simp add: loss_results_append lr ln')
  have 7: "list_all (\<lambda>r. \<exists>a s0. snd (snd r) = snd (fst (loss b a s0))) (loss_results (seg @ ext))"
    using ro ro' by (simp add: loss_results_append lr)
  have 8: "list_all (\<lambda>a. \<exists>g s0. get_aux_losses b = Some g \<and> a = g s0) (aux_results (seg @ ext))"
    using ao ao' by (simp add: aux_results_append)
  from 1 2 3 4 5 6 7 8 show ?case by blast
qed

subsection \<open>The loop of test\<close>

lemma append_visuals_cases:
  assumes "with_visuals \<longrightarrow> get_current_visuals b \<noteq> None"
  obtains visuals1 s' ext where
    "append_visuals b with_visuals visuals (s, tr) = Inr (visuals1, (s', tr @ ext))"
    "aux_results ext = []" "cycle ext = []" "loss_results ext = []" "forwards ext = []"
proof (cases with_visuals)
  case False
  then have "append_visuals b with_visuals visuals (s, tr) = Inr (visuals, (s, tr @ []))"
    by (simp add: append_visuals_def)
  then show thesis by (rule that) simp_all
next
  case True
  with assms obtain g where g: "get_current_visuals b = Some g" by auto
  obtain v s' where "g s = (v, s')" by (cases "g s")
  with True g have "append_visuals b with_visuals visuals (s, tr) =
      Inr (visuals @ [v], (s', tr @ [GetCurrentVisuals v]))"
    by (simp add: append_visuals_def)
  then show thesis by (rule that) simp_all
qed

lemma test_batch_Inr:
  assumes nb: "0 < nb" and two: "\<And>a s. length (snd (fst (loss b a s))) \<le> 2"
    and vis: "with_visuals \<longrightarrow> get_current_visuals b \<noteq> None"
  shows "\<exists>s' seg cs bl rest zz visuals1.
     test_batch b nb with_visuals d ((s, tr), vals, loss_sum, visuals) =
       Inr ((s', tr @ seg), accumulate_all cs vals, loss_sum + bl / real nb, visuals1) \<and>
     mset cs = mset (run_entries (metrics b) True nb seg) \<and>
     loss_results seg = [(expected_loss_args d zz, bl, rest)] \<and>
     forwards seg = [(map fst (inputs d), fst zz), (map snd (inputs d), snd zz)] \<and>
     (\<exists>a s0. rest = snd (fst (loss b a s0))) \<and>
     list_all (\<lambda>a. \<exists>g s0. get_aux_losses b = Some g \<and> a = g s0) (aux_results seg)"
proof -
  obtain zz s1 where g: "get_output_pairs b (inputs d) (s, tr) =
      (zz, (s1, tr @ [ModelForward (map fst (inputs d)) (fst zz),
                      ModelForward (map snd (inputs d)) (snd zz)]))"
    by (rule get_output_pairs_cases)
  define t1 where "t1 = tr @ [ModelForward (map fst (inputs d)) (fst zz),
                               ModelForward (map snd (inputs d)) (snd zz)]"
  obtain visuals1 s2 ext0 where v: "append_visuals b with_visuals visuals (s1, t1) =
      Inr (visuals1, (s2, t1 @ ext0))"
    and vx: "aux_results ext0 = []" "cycle ext0 = []" "loss_results ext0 = []" "forwards ext0 = []"
    using vis by (rule append_visuals_cases)
  obtain bl rest s3 where l: "call_loss b (fst zz) (snd zz) (labels d) (s2, t1 @ ext0) =
      ((bl, rest), (s3, (t1 @ ext0) @ [LossCall (expected_loss_args d (fst zz, snd zz)) bl rest]))"
    and rest: "rest = snd (fst (loss b (expected_loss_args d (fst zz, snd zz)) s2))"
    by (rule call_loss_cases)
  have len: "length rest \<le> 2" unfolding rest by (rule two)
  define t2 where "t2 = t1 @ ext0 @ [LossCall (expected_loss_args d zz) bl rest]"
  obtain aux ext where a: "aux_losses_of b (s3, t2) = (aux, (s3, t2 @ ext))"
    and ax: "concat (aux_results ext) = aux" "cycle ext = []" "loss_results ext = []" "forwards ext = []"
    and ao: "list_all (\<lambda>a. \<exists>g s0. get_aux_losses b = Some g \<and> a = g s0) (aux_results ext)"
    by (rule aux_losses_of_cases)
  define seg where "seg = [ModelForward (map fst (inputs d)) (fst zz),
      ModelForward (map snd (inputs d)) (snd zz)] @ ext0 @
      [LossCall (expected_loss_args d zz) bl rest] @ ext"
  have tseg: "t2 @ ext = tr @ seg"
    by (simp add: seg_def t2_def t1_def)
  have lr: "loss_results seg = [(expected_loss_args d zz, bl, rest)]"
    by (simp add: seg_def loss_results_append ax vx)
  have fw: "forwards seg = [(map fst (inputs d), fst zz), (map snd (inputs d), snd zz)]"
    by (simp add: seg_def forwards_append ax vx)
  have au: "concat (aux_results seg) = aux"
    by (simp add: seg_def aux_results_append ax vx)
  have ao': "list_all (\<lambda>a. \<exists>g s0. get_aux_losses b = Some g \<and> a = g s0) (aux_results seg)"
    using ao by (simp add: seg_def aux_results_append vx)
  have ro: "\<exists>a s0. rest = snd (fst (loss b a s0))"
    using rest by blast
  have re: "run_entries (metrics b) True nb seg =
      aux_entries True nb aux @ metric_entries (metrics b) True nb rest"
    using lr au by (rule run_entries_batch)
  define cs where "cs = metric_entries (metrics b) True nb rest @ aux_entries True nb aux"
  have ms: "mset cs = mset (run_entries (metrics b) True nb seg)"
    by (simp add: cs_def re)
  have "test_batch b nb with_visuals d ((s, tr), vals, loss_sum, visuals) =
       Inr ((s3, tr @ seg), accumulate_all cs vals, loss_sum + bl / real nb, visuals1)"
    using g v l a
    by (simp add: test_batch_def case_prod_beta t1_def [symmetric] t2_def [symmetric] tseg
        call_update_metrics_two [OF nb len] add_aux_losses_eq cs_def accumulate_all_append)
  with ms lr fw ro ao' show ?thesis by blast
qed

lemma test_loop_Inr:
  assumes nb: "0 < nb" and two: "\<And>a s. length (snd (fst (loss b a s))) \<le> 2"
    and vis: "with_visuals \<longrightarrow> get_current_visuals b \<noteq> None"
  shows "\<exists>s' ext cs visuals1.
     test_loop b nb with_visuals ds ((s, tr), vals, loss_sum, visuals) =
       Inr ((s', tr @ ext), accumulate_all cs vals,
            loss_sum + sum_list (map (\<lambda>r. fst (snd r) / real nb) (loss_results ext)), visuals1) \<and>
     mset cs = mset (run_entries (metrics b) True nb ext) \<and>
     map fst (loss_results ext) = map2 expected_loss_args ds (pairs (map snd (forwards ext))) \<and>
     map fst (forwards ext) = concat (map (\<lambda>d. [map fst (inputs d), map snd (inputs d)]) ds) \<and>
     length (loss_results ext) = length ds \<and>
     list_all (\<lambda>r. \<exists>a s0. snd (snd r) = snd (fst (loss b a s0))) (loss_results ext) \<and>
     list_all (\<lambda>a. \<exists>g s0. get_aux_losses b = Some g \<and> a = g s0) (aux_results ext)"
proof (induction ds arbitrary: s tr vals loss_sum visuals)
  case Nil
  have "test_loop b nb with_visuals [] ((s, tr), vals, loss_sum, visuals) =
      Inr ((s, tr @ []), accumulate_all [] vals,
           loss_sum + sum_list (map (\<lambda>r. fst (snd r) / real nb) (loss_results [])), visuals)"
    by (simp add: accumulate_all_Nil)
  moreover have "mset [] = mset (run_entries (metrics b) True nb [])"
    by (simp add: run_entries_def aux_entries_def)
  ultimately show ?case
    by (intro exI [of _ s] exI [of _ "[]"] exI [of _ "[]"] exI [of _ visuals]) simp
next
  case (Cons d ds)
  obtain s1 seg cs0 bl rest zz visuals1 where
    st: "test_batch b nb with_visuals d ((s, tr), vals, loss_sum, visuals) =
       Inr ((s1, tr @ seg), accumulate_all cs0 vals, loss_sum + bl / real nb, visuals1)"
    and ms0: "mset cs0 = mset (run_entries (metrics b) True nb seg)"
    and lr: "loss_results seg = [(expected_loss_args d zz, bl, rest)]"
    and fw: "forwards seg = [(map fst (inputs d), fst zz), (map snd (inputs d), snd zz)]"
    and ro: "\<exists>a s0. rest = snd (fst (loss b a s0))"
    and ao: "list_all (\<lambda>a. \<exists>g s0. get_aux_losses b = Some g \<and> a = g s0) (aux_results seg)"
    using test_batch_Inr [OF nb two vis, of d s tr vals loss_sum visuals]
    by (elim exE conjE) (rule that; (assumption | blast))
  obtain s' ext cs visuals2 where
    lp: "test_loop b nb with_visuals ds ((s1, tr @ seg), accumulate_all cs0 vals,
           loss_sum + bl / real nb, visuals1) =
       Inr ((s', (tr @ seg) @ ext), accumulate_all cs (accumulate_all cs0 vals),
            (loss_sum + bl / real nb) +
              sum_list (map (\<lambda>r. fst (snd r) / real nb) (loss_results ext)), visuals2)"
    and ms: "mset cs = mset (run_entries (metrics b) True nb ext)"
    and lr': "map fst (loss_results ext) = map2 expected_loss_args ds (pairs (map snd (forwards ext)))"
    and fw': "map fst (forwards ext) = concat (map (\<lambda>d. [map fst (inputs d), map snd (inputs d)]) ds)"
    and ln': "length (loss_results ext) = length ds"
    and ro': "list_all (\<lambda>r. \<exists>a s0. snd (snd r) = snd (fst (loss b a s0))) (loss_results ext)"
    and ao': "list_all (\<lambda>a. \<exists>g s0. get_aux_losses b = Some g \<and> a = g s0) (aux_results ext)"
    using Cons.IH [of s1 "tr @ seg" "accumulate_all cs0 vals" "loss_sum + bl / real nb" visuals1]
    by (elim exE conjE) (rule that; (assumption | blast))
  have 1: "test_loop b nb with_visuals (d # ds) ((s, tr), vals, loss_sum, visuals) =
       Inr ((s', tr @ (seg @ ext)), accumulate_all (cs0 @ cs) vals,
            loss_sum + sum_list (map (\<lambda>r. fst (snd r) / real nb) (loss_results (seg @ ext))),
            visuals2)"
    by (simp add: st lp accumulate_all_append loss_results_append lr)
  have 2: "mset (cs0 @ cs) = mset (run_entries (metrics b) True nb (seg @ ext))"
    by (simp add: ms ms0 run_entries_append)
  have 4: "map fst (loss_results (seg @ ext)) =
       map2 expected_loss_args (d # ds) (pairs (map snd (forwards (seg @ ext))))"
    by (simp add: loss_results_append forwards_append lr fw lr')
  have 5: "map fst (forwards (seg @ ext)) =
       concat (map (\<lambda>d. [map fst (inputs d), map snd (inputs d)]) (d # ds))"
    by (simp add: forwards_append fw fw')
  have 6: "length (loss_results (seg @ ext)) = length (d # ds)"
    by (simp add: loss_results_append lr ln')
  have 7: "list_all (\<lambda>r. \<exists>a s0. snd (snd r) = snd (fst (loss b a s0))) (loss_results (seg @ ext))"
    using ro ro' by (simp add: loss_results_append lr)
  have 8: "list_all (\<lambda>a. \<exists>g s0. get_aux_losses b = Some g \<and> a = g s0) (aux_results (seg @ ext))"
    using ao ao' by (simp add: aux_results_append)
  from 1 2 4 5 6 7 8 show ?case by blast
qed

subsection \<open>What train and test return\<close>

lemma run_entries_skip:
  "run_entries ms f nb (ModelTrain # tr) = run_entries ms f nb tr"
  "run_entries ms f nb (ModelEval # tr) = run_entries ms f nb tr"
  by (simp_all add: run_entries_def)

lemma train_Inr:
  assumes two: "\<And>a s. length (snd (fst (loss b a s))) \<le> 2"
  shows "\<exists>s' tr.
     train b l vz s =
       Inr (np_mean (map (\<lambda>r. fst (snd r)) (loss_results tr)),
            totals (run_entries (metrics b) False (len_loader l) tr), (s', tr)) \<and>
     cycle tr = concat (map batch_cycle (iterate l 0)) \<and>
     map fst (loss_results tr) =
       map2 expected_loss_args (iterate l 0) (pairs (map snd (forwards tr))) \<and>
     map fst (forwards tr) =
       concat (map (\<lambda>d. [map fst (inputs d), map snd (inputs d)]) (iterate l 0)) \<and>
     length (loss_results tr) = length (iterate l 0) \<and>
     list_all (\<lambda>r. \<exists>a s0. snd (snd r) = snd (fst (loss b a s0))) (loss_results tr) \<and>
     list_all (\<lambda>a. \<exists>g s0. get_aux_losses b = Some g \<and> a = g s0) (aux_results tr)"
proof (cases "iterate l 0 = []")
  case True
  then have "train b l vz s =
       Inr (np_mean (map (\<lambda>r. fst (snd r)) (loss_results [ModelTrain])),
            totals (run_entries (metrics b) False (len_loader l) [ModelTrain]),
            (model_train b s, [ModelTrain]))"
    by (simp add: train_def run_entries_def aux_entries_def totals_Nil)
  with True show ?thesis
    by (intro exI [of _ "model_train b s"] exI [of _ "[ModelTrain]"]) simp
next
  case False
  then have nb: "0 < len_loader l" by (simp add: len_loader_def)
  obtain s' ext cs where
    lp: "train_loop b (len_loader l) vz (iterate l 0)
           ((model_train b s, [ModelTrain]), Map.empty, [], 0) =
       Inr ((s', [ModelTrain] @ ext), accumulate_all cs Map.empty,
            [] @ map (\<lambda>r. fst (snd r)) (loss_results ext), 0 + length (iterate l 0))"
    and ms: "mset cs = mset (run_entries (metrics b) False (len_loader l) ext)"
    and c: "cycle ext = concat (map batch_cycle (iterate l 0))"
    and lr: "map fst (loss_results ext) =
       map2 expected_loss_args (iterate l 0) (pairs (map snd (forwards ext)))"
    and fw: "map fst (forwards ext) =
       concat (map (\<lambda>d. [map fst (inputs d), map snd (inputs d)]) (iterate l 0))"
    and ln: "length (loss_results ext) = length (iterate l 0)"
    and ro: "list_all (\<lambda>r. \<exists>a s0. snd (snd r) = snd (fst (loss b a s0))) (loss_results ext)"
    and ao: "list_all (\<lambda>a. \<exists>g s0. get_aux_losses b = Some g \<and> a = g s0) (aux_results ext)"
    using train_loop_Inr [OF nb two, of vz "iterate l 0" "model_train b s" "[ModelTrain]"
        Map.empty "[]" 0]
    by (elim exE conjE) (rule that; (assumption | blast))
  have t: "accumulate_all cs Map.empty = totals (run_entries (metrics b) False (len_loader l) ext)"
    using totals_mset [OF ms] by (simp add: accumulate_all_empty)
  have "train b l vz s =
       Inr (np_mean (map (\<lambda>r. fst (snd r)) (loss_results (ModelTrain # ext))),
            totals (run_entries (metrics b) False (len_loader l) (ModelTrain # ext)),
            (s', ModelTrain # ext))"
    by (simp add: train_def lp t run_entries_skip)
  with c lr fw ln ro ao show ?thesis
    by (intro exI [of _ s'] exI [of _ "ModelTrain # ext"]) simp
qed

lemma test_Inr:
  assumes two: "\<And>a s. length (snd (fst (loss b a s))) \<le> 2"
    and vis: "with_visuals \<longrightarrow> get_current_visuals b \<noteq> None"
  shows "\<exists>s' tr vo.
     test b l with_visuals s =
       Inr \<lparr>y = [], y_true = [], X = [],
            loss_value = sum_list (map (\<lambda>r. fst (snd r) / real (len_loader l)) (loss_results tr)),
            metric_values = totals (run_entries (metrics b) True (len_loader l) tr),
            visuals_out = vo, final_ctx = (s', tr)\<rparr> \<and>
     map fst (loss_results tr) =
       map2 expected_loss_args (iterate l 0) (pairs (map snd (forwards tr))) \<and>
     map fst (forwards tr) =
       concat (map (\<lambda>d. [map fst (inputs d), map snd (inputs d)]) (iterate l 0)) \<and>
     length (loss_results tr) = length (iterate l 0) \<and>
     list_all (\<lambda>r. \<exists>a s0. snd (snd r) = snd (fst (loss b a s0))) (loss_results tr) \<and>
     list_all (\<lambda>a. \<exists>g s0. get_aux_losses b = Some g \<and> a = g s0) (aux_results tr)"
proof (cases "iterate l 0 = []")
  case True
  then have "test b l with_visuals s =
       Inr \<lparr>y = [], y_true = [], X = [],
            loss_value = sum_list (map (\<lambda>r. fst (snd r) / real (len_loader l)) (loss_results [ModelEval])),
            metric_values = totals (run_entries (metrics b) True (len_loader l) [ModelEval]),
            visuals_out = (if with_visuals then Some [] else None),
            final_ctx = (model_eval b s, [ModelEval])\<rparr>"
    by (simp add: test_def run_entries_def aux_entries_def totals_Nil)
  with True show ?thesis
    by (intro exI [of _ "model_eval b s"] exI [of _ "[ModelEval]"]
        exI [of _ "if with_visuals then Some [] else None"]) simp
next
  case False
  then have nb: "0 < len_loader l" by (simp add: len_loader_def)
  obtain s' ext cs visuals1 where
    lp: "test_loop b (len_loader l) with_visuals (iterate l 0)
           ((model_eval b s, [ModelEval]), Map.empty, 0, []) =
       Inr ((s', [ModelEval] @ ext), accumulate_all cs Map.empty,
            0 + sum_list (map (\<lambda>r. fst (snd r) / real (len_loader l)) (loss_results ext)), visuals1)"
    and ms: "mset cs = mset (run_entries (metrics b) True (len_loader l) ext)"
    and lr: "map fst (loss_results ext) =
       map2 expected_loss_args (iterate l 0) (pairs (map snd (forwards ext)))"
    and fw: "map fst (forwards ext) =
       concat (map (\<lambda>d. [map fst (inputs d), map snd (inputs d)]) (iterate l 0))"
    and ln: "length (loss_results ext) = length (iterate l 0)"
    and ro: "list_all (\<lambda>r. \<exists>a s0. snd (snd r) = snd (fst (loss b a s0))) (loss_results ext)"
    and ao: "list_all (\<lambda>a. \<exists>g s0. get_aux_losses b = Some g \<and> a = g s0) (aux_results ext)"
    using test_loop_Inr [OF nb two vis, of "iterate l 0" "model_eval b s" "[ModelEval]"
        Map.empty 0 "[]"]
    by (elim exE conjE) (rule that; (assumption | blast))
  have t: "accumulate_all cs Map.empty = totals (run_entries (metrics b) True (len_loader l) ext)"
    using totals_mset [OF ms] by (simp add: accumulate_all_empty)
  have "test b l with_visuals s =
       Inr \<lparr>y = [], y_true = [], X = [],
            loss_value = sum_list (map (\<lambda>r. fst (snd r) / real (len_loader l)) (loss_results (ModelEval # ext))),
            metric_values = totals (run_entries (metrics b) True (len_loader l) (ModelEval # ext)),
            visuals_out = (if with_visuals then Some (concat visuals1) else None),
            final_ctx = (s', ModelEval # ext)\<rparr>"
    by (simp add: test_def lp t run_entries_skip)
  with lr fw ln ro ao show ?thesis
    by (intro exI [of _ s'] exI [of _ "ModelEval # ext"]
        exI [of _ "if with_visuals then Some (concat visuals1) else None"]) simp
qed

subsection \<open>The loop, the loss calls and the returned lists\<close>

lemma example_base_two: "length (snd (fst (loss example_base a s))) \<le> 2"
  by (simp add: example_base_def)

text \<open>
  Claim C9. For every loader, when \<open>test\<close> returns (the loss callable gives at most two
  further outputs, and the network has \<open>get_current_visuals\<close> if visuals are asked for),
  the first three components \<open>y\<close>, \<open>y_true\<close> and \<open>X\<close> of its result are empty lists.
\<close>

theorem test_returns_empty_lists:
  assumes "\<And>a s. length (snd (fst (loss b a s))) \<le> 2"
    and "with_visuals \<longrightarrow> get_current_visuals b \<noteq> None"
  shows "\<exists>r. test b l with_visuals s = Inr r \<and> y r = [] \<and> y_true r = [] \<and> X r = []"
  using test_Inr [OF assms, of l s] by auto

theorem test_returns_empty_lists_witness:
  "(\<forall>a s. length (snd (fst (loss example_base a s))) \<le> 2) \<and>
   (\<exists>r. test example_base example_loader False 0 = Inr r \<and> y r = [] \<and> y_true r = [] \<and> X r = [])"
proof -
  have v: "False \<longrightarrow> get_current_visuals example_base \<noteq> None" by simp
  show ?thesis
    using test_returns_empty_lists [of example_base False example_loader 0, OF example_base_two v]
      example_base_two
    by blast
qed


lemma no_metric_entries:
  "list_all (\<lambda>r. snd (snd r) = []) rs \<Longrightarrow>
     concat (map (\<lambda>r. metric_entries ms f nb (snd (snd r))) rs) = []"
  by (induction rs) simp_all

lemma quiet_results:
  assumes "\<And>a s. snd (fst (loss b a s)) = []"
    and "list_all (\<lambda>r. \<exists>a s0. snd (snd r) = snd (fst (loss b a s0))) rs"
  shows "list_all (\<lambda>r. snd (snd r) = []) rs"
  using assms(2) by (induction rs) (auto simp: assms(1))

text \<open>
  Claim C10. \<open>update_metrics\<close> returns the dictionary it was given whenever \<open>logits\<close> or
  \<open>target\<close> is \<open>None\<close>. When the loss callable returns only the loss, the dictionary that
  \<open>train\<close> and \<open>test\<close> return holds the accumulated auxiliary losses and nothing else: no
  entry comes from a metric.
\<close>

theorem update_metrics_frame:
  "(logits = PyNone \<or> target = PyNone \<longrightarrow>
      update_metrics b vals0 nb logits target validation = Inr vals0) \<and>
   ((\<forall>a s. snd (fst (loss b a s)) = []) \<and> (with_visuals \<longrightarrow> get_current_visuals b \<noteq> None) \<longrightarrow>
      (\<exists>loss_mean vals s' tr.
         train b l vz s = Inr (loss_mean, vals, (s', tr)) \<and>
         vals = totals (aux_entries False (len_loader l) (concat (aux_results tr)))) \<and>
      (\<exists>r. test b l with_visuals s = Inr r \<and>
         metric_values r =
           totals (aux_entries True (len_loader l) (concat (aux_results (snd (final_ctx r)))))))"
proof (intro conjI impI)
  assume "logits = PyNone \<or> target = PyNone"
  then show "update_metrics b vals0 nb logits target validation = Inr vals0"
    by (cases logits) (auto simp: update_metrics_def)
next
  assume h: "(\<forall>a s. snd (fst (loss b a s)) = []) \<and> (with_visuals \<longrightarrow> get_current_visuals b \<noteq> None)"
  then have q: "\<And>a s. snd (fst (loss b a s)) = []" by blast
  then have two: "\<And>a s. length (snd (fst (loss b a s))) \<le> 2" by simp
  obtain s' tr where
    t: "train b l vz s =
       Inr (np_mean (map (\<lambda>r. fst (snd r)) (loss_results tr)),
            totals (run_entries (metrics b) False (len_loader l) tr), (s', tr))"
    and ro: "list_all (\<lambda>r. \<exists>a s0. snd (snd r) = snd (fst (loss b a s0))) (loss_results tr)"
    using train_Inr [OF two, of l vz s]
    by (elim exE conjE) (rule that; (assumption | blast))
  have "run_entries (metrics b) False (len_loader l) tr =
      aux_entries False (len_loader l) (concat (aux_results tr))"
    using no_metric_entries [OF quiet_results [OF q ro]] by (simp add: run_entries_def)
  with t show "\<exists>loss_mean vals s' tr.
         train b l vz s = Inr (loss_mean, vals, (s', tr)) \<and>
         vals = totals (aux_entries False (len_loader l) (concat (aux_results tr)))"
    by simp
next
  assume h: "(\<forall>a s. snd (fst (loss b a s)) = []) \<and> (with_visuals \<longrightarrow> get_current_visuals b \<noteq> None)"
  then have q: "\<And>a s. snd (fst (loss b a s)) = []"
    and vis: "with_visuals \<longrightarrow> get_current_visuals b \<noteq> None" by blast+
  then have two: "\<And>a s. length (snd (fst (loss b a s))) \<le> 2" by simp
  obtain s' tr vo where
    t: "test b l with_visuals s =
       Inr \<lparr>y = [], y_true = [], X = [],
            loss_value = sum_list (map (\<lambda>r. fst (snd r) / real (len_loader l)) (loss_results tr)),
            metric_values = totals (run_entries (metrics b) True (len_loader l) tr),
            visuals_out = vo, final_ctx = (s', tr)\<rparr>"
    and ro: "list_all (\<lambda>r. \<exists>a s0. snd (snd r) = snd (fst (loss b a s0))) (loss_results tr)"
    using test_Inr [OF two vis, of l s]
    by (elim exE conjE) (rule that; (assumption | blast))
  have "run_entries (metrics b) True (len_loader l) tr =
      aux_entries True (len_loader l) (concat (aux_results tr))"
    using no_metric_entries [OF quiet_results [OF q ro]] by (simp add: run_entries_def)
  with t show "\<exists>r. test b l with_visuals s = Inr r \<and>
         metric_values r =
           totals (aux_entries True (len_loader l) (concat (aux_results (snd (final_ctx r)))))"
    by simp
qed

theorem update_metrics_frame_witness:
  "update_metrics quiet_base Map.empty 2 PyNone (Tensor 1) (Flag False) = Inr Map.empty \<and>
   (\<forall>a s. snd (fst (loss quiet_base a s)) = []) \<and>
   (\<exists>loss_mean vals s' tr.
      train quiet_base example_loader None 0 = Inr (loss_mean, vals, (s', tr)) \<and>
      vals = totals (aux_entries False (len_loader example_loader) (concat (aux_results tr)))) \<and>
   (\<exists>r. test quiet_base example_loader False 0 = Inr r \<and>
      metric_values r =
        totals (aux_entries True (len_loader example_loader)
                  (concat (aux_results (snd (final_ctx r))))))"
proof -
  have q: "\<forall>a s. snd (fst (loss quiet_base a s)) = []"
    by (simp add: quiet_base_def example_base_def)
  show ?thesis
    using update_metrics_frame [of PyNone "Tensor 1" quiet_base Map.empty 2 "Flag False" False
        example_loader None 0] q
    by simp
qed

subsection \<open>Sums of named amounts\<close>











subsection \<open>The loops against the words of the specification\<close>

lemma training_cycles_length: "length (fst (training_cycles b vz ds n s)) = length ds"
  by (induction ds arbitrary: n s) (simp_all add: case_prod_beta)

lemma evaluation_steps_length: "length (fst (evaluation_steps b wv ds s)) = length ds"
  by (induction ds arbitrary: s) (simp_all add: case_prod_beta)

lemma refresh_visuals_run:
  obtains ext where
    "refresh_visuals b vz n (s, tr) = (visualizer_effect b vz n s, tr @ ext)"
    "aux_results ext = []" "cycle ext = []" "loss_results ext = []" "forwards ext = []"
proof -
  obtain s' ext where r: "refresh_visuals b vz n (s, tr) = (s', tr @ ext)"
    and x: "aux_results ext = []" "cycle ext = []" "loss_results ext = []" "forwards ext = []"
    by (rule refresh_visuals_cases)
  have "fst (refresh_visuals b vz n (s, tr)) = visualizer_effect b vz n s"
    by (simp add: refresh_visuals_def visualizer_effect_def Let_def
        split: option.splits prod.splits)
  with r have "s' = visualizer_effect b vz n s" by simp
  with r x show thesis by (intro that [of ext]) simp_all
qed

lemma aux_losses_of_run:
  obtains ext where
    "aux_losses_of b (s, tr) = (read_aux b s, (s, tr @ ext))"
    "concat (aux_results ext) = read_aux b s" "cycle ext = []" "loss_results ext = []"
    "forwards ext = []"
proof (cases "get_aux_losses b")
  case None
  then have "aux_losses_of b (s, tr) = (read_aux b s, (s, tr @ []))"
    by (simp add: aux_losses_of_def read_aux_def)
  then show thesis by (rule that) (simp_all add: None read_aux_def)
next
  case (Some g)
  then have "aux_losses_of b (s, tr) = (read_aux b s, (s, tr @ [GetAuxLosses (g s)]))"
    by (simp add: aux_losses_of_def read_aux_def)
  then show thesis by (rule that) (simp_all add: Some read_aux_def)
qed

lemma get_output_pairs_run:
  "get_output_pairs b (inputs d) (s, tr) =
     (fst (forward_views b d s),
      (snd (forward_views b d s),
       tr @ [ModelForward (map fst (inputs d)) (fst (fst (forward_views b d s))),
             ModelForward (map snd (inputs d)) (snd (fst (forward_views b d s)))]))"
  by (simp add: get_output_pairs_def forward_views_def split: prod.splits)

lemma call_loss_run:
  "call_loss b (fst outs) (snd outs) (labels d) (s, tr) =
     (fst (loss b (loss_arguments d outs) s),
      (snd (loss b (loss_arguments d outs) s),
       tr @ [LossCall (loss_arguments d outs) (fst (fst (loss b (loss_arguments d outs) s)))
               (snd (fst (loss b (loss_arguments d outs) s)))]))"
  by (cases "labels d") (simp_all add: call_loss_def loss_arguments_def Let_def split: prod.splits)

lemma training_cycle_eq:
  "training_cycle b d s =
     (\<lparr>model_outputs = fst (forward_views b d (zero_grad b s)),
       invoked = loss_arguments d (fst (forward_views b d (zero_grad b s))),
       returned_loss = fst (fst (loss b (loss_arguments d (fst (forward_views b d (zero_grad b s))))
                                   (snd (forward_views b d (zero_grad b s))))),
       returned_rest = snd (fst (loss b (loss_arguments d (fst (forward_views b d (zero_grad b s))))
                                   (snd (forward_views b d (zero_grad b s))))),
       aux_read = read_aux b (step b (backward b
                    (snd (loss b (loss_arguments d (fst (forward_views b d (zero_grad b s))))
                            (snd (forward_views b d (zero_grad b s)))))))\<rparr>,
      step b (backward b (snd (loss b (loss_arguments d (fst (forward_views b d (zero_grad b s))))
                                 (snd (forward_views b d (zero_grad b s)))))))"
  by (simp add: training_cycle_def split: prod.splits)

lemma train_batch_run:
  assumes "train_batch b nb vz d ((s, tr), vals, losses, n) = Inr st"
  obtains seg vals' where
    "st = ((visualizer_effect b vz n (snd (training_cycle b d s)), tr @ seg), vals',
           losses @ [returned_loss (fst (training_cycle b d s))], Suc n)"
    "cycle seg = batch_cycle d"
    "loss_results seg = logged_loss_calls [fst (training_cycle b d s)]"
    "forwards seg = logged_forwards [d] [fst (training_cycle b d s)]"
    "concat (aux_results seg) = aux_read (fst (training_cycle b d s))"
proof -
  define outs where "outs = fst (forward_views b d (zero_grad b s))"
  define s1 where "s1 = snd (forward_views b d (zero_grad b s))"
  define a where "a = loss_arguments d outs"
  define bl where "bl = fst (fst (loss b a s1))"
  define rest where "rest = snd (fst (loss b a s1))"
  define s3 where "s3 = step b (backward b (snd (loss b a s1)))"
  have tc: "training_cycle b d s =
      (\<lparr>model_outputs = outs, invoked = a, returned_loss = bl, returned_rest = rest,
        aux_read = read_aux b s3\<rparr>, s3)"
    by (simp add: training_cycle_eq outs_def s1_def a_def bl_def rest_def s3_def)
  define t1 where "t1 = tr @ [ZeroGrad, ModelForward (map fst (inputs d)) (fst outs),
                               ModelForward (map snd (inputs d)) (snd outs)]"
  have g: "get_output_pairs b (inputs d) (zero_grad b s, tr @ [ZeroGrad]) = (outs, (s1, t1))"
    by (simp add: get_output_pairs_run outs_def s1_def t1_def)
  define t2 where "t2 = t1 @ [LossCall a bl rest, Backward, OptimizerStep]"
  have l: "call_loss b (fst outs) (snd outs) (labels d) (s1, t1) =
      ((bl, rest), (snd (loss b a s1), t1 @ [LossCall a bl rest]))"
    by (simp add: call_loss_run a_def bl_def rest_def)
  obtain ext where x: "aux_losses_of b (s3, t2) = (read_aux b s3, (s3, t2 @ ext))"
    and ax: "concat (aux_results ext) = read_aux b s3" "cycle ext = []" "loss_results ext = []"
      "forwards ext = []"
    by (rule aux_losses_of_run)
  obtain ext2 where r: "refresh_visuals b vz n (s3, t2 @ ext) =
      (visualizer_effect b vz n s3, (t2 @ ext) @ ext2)"
    and rx: "aux_results ext2 = []" "cycle ext2 = []" "loss_results ext2 = []" "forwards ext2 = []"
    by (rule refresh_visuals_run)
  define seg where "seg = [ZeroGrad, ModelForward (map fst (inputs d)) (fst outs),
      ModelForward (map snd (inputs d)) (snd outs),
      LossCall a bl rest, Backward, OptimizerStep] @ ext @ ext2"
  have tseg: "t2 @ ext @ ext2 = tr @ seg"
    by (simp add: seg_def t2_def t1_def)
  have "train_batch b nb vz d ((s, tr), vals, losses, n) =
      (case call_update_metrics b (add_aux_losses False nb (read_aux b s3) vals) nb rest None of
         Inl e \<Rightarrow> Inl e
       | Inr vals2 \<Rightarrow>
           Inr ((visualizer_effect b vz n s3, tr @ seg), vals2, losses @ [bl], Suc n))"
    using g l x r
    by (simp add: train_batch_def case_prod_beta t2_def [symmetric] s3_def [symmetric] tseg
        split: sum.split)
  with assms obtain vals2 where
    st: "st = ((visualizer_effect b vz n s3, tr @ seg), vals2, losses @ [bl], Suc n)"
    by (auto split: sum.splits)
  show thesis
  proof (rule that [of seg vals2])
    show "st = ((visualizer_effect b vz n (snd (training_cycle b d s)), tr @ seg), vals2,
           losses @ [returned_loss (fst (training_cycle b d s))], Suc n)"
      by (simp add: st tc del: training_cycles.simps)
    show "cycle seg = batch_cycle d"
      by (simp add: seg_def cycle_append ax rx batch_cycle_def)
    show "loss_results seg = logged_loss_calls [fst (training_cycle b d s)]"
      by (simp add: seg_def loss_results_append ax rx tc logged_loss_calls_def)
    show "forwards seg = logged_forwards [d] [fst (training_cycle b d s)]"
      by (simp add: seg_def forwards_append ax rx tc logged_forwards_def)
    show "concat (aux_results seg) = aux_read (fst (training_cycle b d s))"
      by (simp add: seg_def aux_results_append ax rx tc)
  qed
qed

lemma logged_loss_calls_Cons:
  "logged_loss_calls (out # outs) = logged_loss_calls [out] @ logged_loss_calls outs"
  by (simp add: logged_loss_calls_def)

lemma logged_forwards_Cons:
  "logged_forwards (d # ds) (out # outs) = logged_forwards [d] [out] @ logged_forwards ds outs"
  by (simp add: logged_forwards_def)

lemma train_loop_run:
  assumes "train_loop b nb vz ds ((s, tr), vals, losses, n) = Inr st"
  shows "\<exists>ext vals'.
     st = ((snd (training_cycles b vz ds n s), tr @ ext), vals',
           losses @ map returned_loss (fst (training_cycles b vz ds n s)), n + length ds) \<and>
     cycle ext = concat (map batch_cycle ds) \<and>
     loss_results ext = logged_loss_calls (fst (training_cycles b vz ds n s)) \<and>
     forwards ext = logged_forwards ds (fst (training_cycles b vz ds n s)) \<and>
     concat (aux_results ext) = concat (map aux_read (fst (training_cycles b vz ds n s)))"
  using assms
proof (induction ds arbitrary: s tr vals losses n)
  case Nil
  then have "st = ((s, tr @ []), vals, losses @ [], n + 0)" by simp
  then show ?case
    by (intro exI [of _ "[]"] exI [of _ vals]) (simp add: logged_loss_calls_def logged_forwards_def)
next
  case (Cons d ds)
  from Cons.prems obtain st1 where
    b1: "train_batch b nb vz d ((s, tr), vals, losses, n) = Inr st1"
    and lp: "train_loop b nb vz ds st1 = Inr st"
    by (auto split: sum.splits)
  define out where "out = fst (training_cycle b d s)"
  define s1 where "s1 = visualizer_effect b vz n (snd (training_cycle b d s))"
  obtain seg vals1 where
    st1: "st1 = ((s1, tr @ seg), vals1, losses @ [returned_loss out], Suc n)"
    and c: "cycle seg = batch_cycle d"
    and lr: "loss_results seg = logged_loss_calls [out]"
    and fw: "forwards seg = logged_forwards [d] [out]"
    and au: "concat (aux_results seg) = aux_read out"
    unfolding out_def s1_def using b1 by (rule train_batch_run)
  define outs where "outs = fst (training_cycles b vz ds (Suc n) s1)"
  have tc: "training_cycles b vz (d # ds) n s = (out # outs, snd (training_cycles b vz ds (Suc n) s1))"
    by (simp add: out_def outs_def s1_def case_prod_beta)
  obtain ext vals2 where
    st: "st = ((snd (training_cycles b vz ds (Suc n) s1), (tr @ seg) @ ext), vals2,
           (losses @ [returned_loss out]) @ map returned_loss outs, Suc n + length ds)"
    and c': "cycle ext = concat (map batch_cycle ds)"
    and lr': "loss_results ext = logged_loss_calls outs"
    and fw': "forwards ext = logged_forwards ds outs"
    and au': "concat (aux_results ext) = concat (map aux_read outs)"
    using Cons.IH [OF lp [unfolded st1], folded outs_def]
    by (elim exE conjE) (rule that; assumption)
  have 1: "st = ((snd (training_cycles b vz (d # ds) n s), tr @ (seg @ ext)), vals2,
           losses @ map returned_loss (fst (training_cycles b vz (d # ds) n s)),
           n + length (d # ds))"
    by (simp add: st tc del: training_cycles.simps)
  have 2: "cycle (seg @ ext) = concat (map batch_cycle (d # ds))"
    by (simp add: cycle_append c c')
  have 3: "loss_results (seg @ ext) = logged_loss_calls (fst (training_cycles b vz (d # ds) n s))"
    by (simp add: loss_results_append lr lr' tc logged_loss_calls_Cons [of out outs]
        del: training_cycles.simps)
  have 4: "forwards (seg @ ext) = logged_forwards (d # ds) (fst (training_cycles b vz (d # ds) n s))"
    by (simp add: forwards_append fw fw' tc logged_forwards_Cons [of d ds out outs]
        del: training_cycles.simps)
  have 5: "concat (aux_results (seg @ ext)) =
      concat (map aux_read (fst (training_cycles b vz (d # ds) n s)))"
    by (simp add: aux_results_append au au' tc del: training_cycles.simps)
  from 1 2 3 4 5 show ?case by blast
qed

lemma train_run:
  assumes "train b l vz s = Inr (loss_mean, vals, (s', tr))"
  shows "s' = snd (training_run b l vz s)"
    and "loss_mean = np_mean (map returned_loss (fst (training_run b l vz s)))"
    and "cycle tr = concat (map batch_cycle (iterate l 0))"
    and "loss_results tr = logged_loss_calls (fst (training_run b l vz s))"
    and "forwards tr = logged_forwards (iterate l 0) (fst (training_run b l vz s))"
    and "concat (aux_results tr) = concat (map aux_read (fst (training_run b l vz s)))"
proof -
  have "\<exists>st. train_loop b (len_loader l) vz (iterate l 0)
           ((model_train b s, [ModelTrain]), Map.empty, [], 0) = Inr st"
  proof (cases "train_loop b (len_loader l) vz (iterate l 0)
           ((model_train b s, [ModelTrain]), Map.empty, [], 0)")
    case (Inl e)
    then have "train b l vz s = Inl e" by (simp add: train_def)
    with assms show ?thesis by simp
  next
    case (Inr st)
    then show ?thesis by (rule exI)
  qed
  then obtain st where
    lp: "train_loop b (len_loader l) vz (iterate l 0)
           ((model_train b s, [ModelTrain]), Map.empty, [], 0) = Inr st" ..
  obtain ext vals' where
    e: "st = ((snd (training_run b l vz s), [ModelTrain] @ ext), vals',
           [] @ map returned_loss (fst (training_run b l vz s)), 0 + length (iterate l 0))"
    and c: "cycle ext = concat (map batch_cycle (iterate l 0))"
    and lr: "loss_results ext = logged_loss_calls (fst (training_run b l vz s))"
    and fw: "forwards ext = logged_forwards (iterate l 0) (fst (training_run b l vz s))"
    and au: "concat (aux_results ext) = concat (map aux_read (fst (training_run b l vz s)))"
    using train_loop_run [OF lp, folded training_run_def]
    by (elim exE conjE) (rule that; assumption)
  have "train b l vz s =
      Inr (np_mean (map returned_loss (fst (training_run b l vz s))), vals',
           (snd (training_run b l vz s), ModelTrain # ext))"
    by (simp add: train_def lp e)
  then have "Inr (loss_mean :: pyfloat, vals :: dict, (s', tr)) =
      (Inr (np_mean (map returned_loss (fst (training_run b l vz s))), vals',
           (snd (training_run b l vz s), ModelTrain # ext)) :: error + _)"
    by (simp only: assms)
  then have s': "s' = snd (training_run b l vz s)"
    and lm: "loss_mean = np_mean (map returned_loss (fst (training_run b l vz s)))"
    and tr: "tr = ModelTrain # ext"
    by simp_all
  show "s' = snd (training_run b l vz s)" by (rule s')
  show "loss_mean = np_mean (map returned_loss (fst (training_run b l vz s)))" by (rule lm)
  show "cycle tr = concat (map batch_cycle (iterate l 0))" by (simp add: tr c)
  show "loss_results tr = logged_loss_calls (fst (training_run b l vz s))" by (simp add: tr lr)
  show "forwards tr = logged_forwards (iterate l 0) (fst (training_run b l vz s))"
    by (simp add: tr fw)
  show "concat (aux_results tr) = concat (map aux_read (fst (training_run b l vz s)))"
    by (simp add: tr au)
qed


lemma evaluation_step_eq:
  "evaluation_step b wv d s =
     (\<lparr>model_outputs = fst (forward_views b d s),
       invoked = loss_arguments d (fst (forward_views b d s)),
       returned_loss = fst (fst (loss b (loss_arguments d (fst (forward_views b d s)))
                                   (visuals_effect b wv (snd (forward_views b d s))))),
       returned_rest = snd (fst (loss b (loss_arguments d (fst (forward_views b d s)))
                                   (visuals_effect b wv (snd (forward_views b d s))))),
       aux_read = read_aux b (snd (loss b (loss_arguments d (fst (forward_views b d s)))
                                      (visuals_effect b wv (snd (forward_views b d s)))))\<rparr>,
      snd (loss b (loss_arguments d (fst (forward_views b d s)))
             (visuals_effect b wv (snd (forward_views b d s)))))"
  by (simp add: evaluation_step_def split: prod.splits)

lemma append_visuals_run:
  assumes "append_visuals b wv visuals (s, tr) = Inr r"
  obtains visuals1 ext where
    "r = (visuals1, (visuals_effect b wv s, tr @ ext))"
    "aux_results ext = []" "cycle ext = []" "loss_results ext = []" "forwards ext = []"
proof (cases wv)
  case False
  with assms have "r = (visuals, (visuals_effect b wv s, tr @ []))"
    by (simp add: append_visuals_def visuals_effect_def)
  then show thesis by (rule that) simp_all
next
  case True
  show thesis
  proof (cases "get_current_visuals b")
    case None
    with True have "append_visuals b wv visuals (s, tr) = Inl AttributeError"
      by (simp add: append_visuals_def)
    with assms show thesis by simp
  next
    case (Some g)
    with True have "append_visuals b wv visuals (s, tr) =
        Inr (visuals @ [fst (g s)], (visuals_effect b wv s, tr @ [GetCurrentVisuals (fst (g s))]))"
      by (simp add: append_visuals_def visuals_effect_def split: prod.splits)
    with assms have "r = (visuals @ [fst (g s)],
        (visuals_effect b wv s, tr @ [GetCurrentVisuals (fst (g s))]))"
      by simp
    then show thesis by (rule that) simp_all
  qed
qed

lemma test_batch_run:
  assumes "test_batch b nb wv d ((s, tr), vals, loss_sum, visuals) = Inr st"
  obtains seg vals' visuals1 where
    "st = ((snd (evaluation_step b wv d s), tr @ seg), vals',
           loss_sum + returned_loss (fst (evaluation_step b wv d s)) / real nb, visuals1)"
    "loss_results seg = logged_loss_calls [fst (evaluation_step b wv d s)]"
    "forwards seg = logged_forwards [d] [fst (evaluation_step b wv d s)]"
    "concat (aux_results seg) = aux_read (fst (evaluation_step b wv d s))"
proof -
  define outs where "outs = fst (forward_views b d s)"
  define s1 where "s1 = snd (forward_views b d s)"
  define s2 where "s2 = visuals_effect b wv s1"
  define a where "a = loss_arguments d outs"
  define bl where "bl = fst (fst (loss b a s2))"
  define rest where "rest = snd (fst (loss b a s2))"
  define s3 where "s3 = snd (loss b a s2)"
  have es: "evaluation_step b wv d s =
      (\<lparr>model_outputs = outs, invoked = a, returned_loss = bl, returned_rest = rest,
        aux_read = read_aux b s3\<rparr>, s3)"
    by (simp add: evaluation_step_eq outs_def s1_def s2_def a_def bl_def rest_def s3_def)
  define t1 where "t1 = tr @ [ModelForward (map fst (inputs d)) (fst outs),
                               ModelForward (map snd (inputs d)) (snd outs)]"
  have g: "get_output_pairs b (inputs d) (s, tr) = (outs, (s1, t1))"
    by (simp add: get_output_pairs_run outs_def s1_def t1_def)
  have "\<exists>r. append_visuals b wv visuals (s1, t1) = Inr r"
  proof (cases "append_visuals b wv visuals (s1, t1)")
    case (Inl e)
    then have "test_batch b nb wv d ((s, tr), vals, loss_sum, visuals) = Inl e"
      using g by (simp add: test_batch_def)
    with assms show ?thesis by simp
  next
    case (Inr r)
    then show ?thesis by (rule exI)
  qed
  then obtain r where av: "append_visuals b wv visuals (s1, t1) = Inr r" ..
  obtain visuals1 ext0 where r: "r = (visuals1, (s2, t1 @ ext0))"
    and vx: "aux_results ext0 = []" "cycle ext0 = []" "loss_results ext0 = []" "forwards ext0 = []"
    unfolding s2_def using av by (rule append_visuals_run)
  have l: "call_loss b (fst outs) (snd outs) (labels d) (s2, t1 @ ext0) =
      ((bl, rest), (s3, (t1 @ ext0) @ [LossCall a bl rest]))"
    by (simp add: call_loss_run a_def bl_def rest_def s3_def)
  define t2 where "t2 = t1 @ ext0 @ [LossCall a bl rest]"
  obtain ext where x: "aux_losses_of b (s3, t2) = (read_aux b s3, (s3, t2 @ ext))"
    and ax: "concat (aux_results ext) = read_aux b s3" "cycle ext = []" "loss_results ext = []"
      "forwards ext = []"
    by (rule aux_losses_of_run)
  define seg where "seg = [ModelForward (map fst (inputs d)) (fst outs),
      ModelForward (map snd (inputs d)) (snd outs)] @ ext0 @ [LossCall a bl rest] @ ext"
  have tseg: "t2 @ ext = tr @ seg"
    by (simp add: seg_def t2_def t1_def)
  have "test_batch b nb wv d ((s, tr), vals, loss_sum, visuals) =
      (case call_update_metrics b vals nb rest (Some True) of
         Inl e \<Rightarrow> Inl e
       | Inr vals1 \<Rightarrow>
           Inr ((s3, tr @ seg), add_aux_losses True nb (read_aux b s3) vals1,
                loss_sum + bl / real nb, visuals1))"
    using g l x
    by (simp add: test_batch_def av r case_prod_beta t2_def [symmetric] tseg split: sum.split)
  with assms obtain vals2 where
    st: "st = ((s3, tr @ seg), vals2, loss_sum + bl / real nb, visuals1)"
    by (cases "call_update_metrics b vals nb rest (Some True)") auto
  show thesis
  proof (rule that [of seg vals2 visuals1])
    show "st = ((snd (evaluation_step b wv d s), tr @ seg), vals2,
           loss_sum + returned_loss (fst (evaluation_step b wv d s)) / real nb, visuals1)"
      by (simp add: st es)
    show "loss_results seg = logged_loss_calls [fst (evaluation_step b wv d s)]"
      by (simp add: seg_def loss_results_append ax vx es logged_loss_calls_def)
    show "forwards seg = logged_forwards [d] [fst (evaluation_step b wv d s)]"
      by (simp add: seg_def forwards_append ax vx es logged_forwards_def)
    show "concat (aux_results seg) = aux_read (fst (evaluation_step b wv d s))"
      by (simp add: seg_def aux_results_append ax vx es)
  qed
qed

lemma test_loop_run:
  assumes "test_loop b nb wv ds ((s, tr), vals, loss_sum, visuals) = Inr st"
  shows "\<exists>ext vals' visuals'.
     st = ((snd (evaluation_steps b wv ds s), tr @ ext), vals',
           loss_sum + sum_list (map (\<lambda>out. returned_loss out / real nb)
                                  (fst (evaluation_steps b wv ds s))), visuals') \<and>
     loss_results ext = logged_loss_calls (fst (evaluation_steps b wv ds s)) \<and>
     forwards ext = logged_forwards ds (fst (evaluation_steps b wv ds s)) \<and>
     concat (aux_results ext) = concat (map aux_read (fst (evaluation_steps b wv ds s)))"
  using assms
proof (induction ds arbitrary: s tr vals loss_sum visuals)
  case Nil
  then have "st = ((s, tr @ []), vals, loss_sum + 0, visuals)" by simp
  then show ?case
    by (intro exI [of _ "[]"] exI [of _ vals] exI [of _ visuals])
      (simp add: logged_loss_calls_def logged_forwards_def)
next
  case (Cons d ds)
  have "\<exists>st1. test_batch b nb wv d ((s, tr), vals, loss_sum, visuals) = Inr st1"
  proof (cases "test_batch b nb wv d ((s, tr), vals, loss_sum, visuals)")
    case (Inl e)
    with Cons.prems show ?thesis by simp
  next
    case (Inr st1)
    then show ?thesis by (rule exI)
  qed
  then obtain st1 where b1: "test_batch b nb wv d ((s, tr), vals, loss_sum, visuals) = Inr st1" ..
  with Cons.prems have lp: "test_loop b nb wv ds st1 = Inr st" by simp
  define out where "out = fst (evaluation_step b wv d s)"
  define s1 where "s1 = snd (evaluation_step b wv d s)"
  obtain seg vals1 visuals1 where
    st1: "st1 = ((s1, tr @ seg), vals1, loss_sum + returned_loss out / real nb, visuals1)"
    and lr: "loss_results seg = logged_loss_calls [out]"
    and fw: "forwards seg = logged_forwards [d] [out]"
    and au: "concat (aux_results seg) = aux_read out"
    unfolding out_def s1_def using b1 by (rule test_batch_run)
  define outs where "outs = fst (evaluation_steps b wv ds s1)"
  have tc: "evaluation_steps b wv (d # ds) s = (out # outs, snd (evaluation_steps b wv ds s1))"
    by (simp add: out_def outs_def s1_def case_prod_beta)
  obtain ext vals2 visuals2 where
    st: "st = ((snd (evaluation_steps b wv ds s1), (tr @ seg) @ ext), vals2,
           (loss_sum + returned_loss out / real nb) +
             sum_list (map (\<lambda>out. returned_loss out / real nb) outs), visuals2)"
    and lr': "loss_results ext = logged_loss_calls outs"
    and fw': "forwards ext = logged_forwards ds outs"
    and au': "concat (aux_results ext) = concat (map aux_read outs)"
    using Cons.IH [OF lp [unfolded st1], folded outs_def]
    by (elim exE conjE) (rule that; assumption)
  have 1: "st = ((snd (evaluation_steps b wv (d # ds) s), tr @ (seg @ ext)), vals2,
           loss_sum + sum_list (map (\<lambda>out. returned_loss out / real nb)
                                  (fst (evaluation_steps b wv (d # ds) s))), visuals2)"
    by (simp add: st tc del: evaluation_steps.simps)
  have 3: "loss_results (seg @ ext) = logged_loss_calls (fst (evaluation_steps b wv (d # ds) s))"
    by (simp add: loss_results_append lr lr' tc logged_loss_calls_Cons [of out outs]
        del: evaluation_steps.simps)
  have 4: "forwards (seg @ ext) = logged_forwards (d # ds) (fst (evaluation_steps b wv (d # ds) s))"
    by (simp add: forwards_append fw fw' tc logged_forwards_Cons [of d ds out outs]
        del: evaluation_steps.simps)
  have 5: "concat (aux_results (seg @ ext)) =
      concat (map aux_read (fst (evaluation_steps b wv (d # ds) s)))"
    by (simp add: aux_results_append au au' tc del: evaluation_steps.simps)
  from 1 3 4 5 show ?case by blast
qed

lemma test_run:
  assumes "test b l wv s = Inr r"
  shows "fst (final_ctx r) = snd (evaluation_run b l wv s)"
    and "loss_value r =
           sum_list (map (\<lambda>out. returned_loss out / real (len_loader l))
                       (fst (evaluation_run b l wv s)))"
    and "loss_results (snd (final_ctx r)) = logged_loss_calls (fst (evaluation_run b l wv s))"
    and "forwards (snd (final_ctx r)) =
           logged_forwards (iterate l 0) (fst (evaluation_run b l wv s))"
    and "concat (aux_results (snd (final_ctx r))) =
           concat (map aux_read (fst (evaluation_run b l wv s)))"
proof -
  have "\<exists>st. test_loop b (len_loader l) wv (iterate l 0)
           ((model_eval b s, [ModelEval]), Map.empty, 0, []) = Inr st"
  proof (cases "test_loop b (len_loader l) wv (iterate l 0)
           ((model_eval b s, [ModelEval]), Map.empty, 0, [])")
    case (Inl e)
    then have "test b l wv s = Inl e" by (simp add: test_def)
    with assms show ?thesis by simp
  next
    case (Inr st)
    then show ?thesis by (rule exI)
  qed
  then obtain st where
    lp: "test_loop b (len_loader l) wv (iterate l 0)
           ((model_eval b s, [ModelEval]), Map.empty, 0, []) = Inr st" ..
  obtain ext vals' visuals' where
    e: "st = ((snd (evaluation_run b l wv s), [ModelEval] @ ext), vals',
           0 + sum_list (map (\<lambda>out. returned_loss out / real (len_loader l))
                           (fst (evaluation_run b l wv s))), visuals')"
    and lr: "loss_results ext = logged_loss_calls (fst (evaluation_run b l wv s))"
    and fw: "forwards ext = logged_forwards (iterate l 0) (fst (evaluation_run b l wv s))"
    and au: "concat (aux_results ext) = concat (map aux_read (fst (evaluation_run b l wv s)))"
    using test_loop_run [OF lp, folded evaluation_run_def]
    by (elim exE conjE) (rule that; assumption)
  have "test b l wv s =
      Inr \<lparr>y = [], y_true = [], X = [],
           loss_value = sum_list (map (\<lambda>out. returned_loss out / real (len_loader l))
                                    (fst (evaluation_run b l wv s))),
           metric_values = vals',
           visuals_out = (if wv then Some (concat visuals') else None),
           final_ctx = (snd (evaluation_run b l wv s), ModelEval # ext)\<rparr>"
    by (simp add: test_def lp e)
  with assms have r: "r =
      \<lparr>y = [], y_true = [], X = [],
           loss_value = sum_list (map (\<lambda>out. returned_loss out / real (len_loader l))
                                    (fst (evaluation_run b l wv s))),
           metric_values = vals',
           visuals_out = (if wv then Some (concat visuals') else None),
           final_ctx = (snd (evaluation_run b l wv s), ModelEval # ext)\<rparr>"
    by simp
  show "fst (final_ctx r) = snd (evaluation_run b l wv s)" by (simp add: r)
  show "loss_value r =
           sum_list (map (\<lambda>out. returned_loss out / real (len_loader l))
                       (fst (evaluation_run b l wv s)))"
    by (simp add: r)
  show "loss_results (snd (final_ctx r)) = logged_loss_calls (fst (evaluation_run b l wv s))"
    by (simp add: r lr)
  show "forwards (snd (final_ctx r)) =
           logged_forwards (iterate l 0) (fst (evaluation_run b l wv s))"
    by (simp add: r fw)
  show "concat (aux_results (snd (final_ctx r))) =
           concat (map aux_read (fst (evaluation_run b l wv s)))"
    by (simp add: r au)
qed


lemma recording_base_two: "length (snd (fst (loss recording_base a s))) \<le> 2"
  by (simp add: recording_base_def)

lemma recording_training_run:
  "training_run recording_base mixed_loader None [] =
     ([\<lparr>model_outputs = ([10, 30], [20, 40]), invoked = Loss3 [10, 30] [20, 40] [7, 8],
        returned_loss = 4, returned_rest = [Tensor 2, Tensor 4], aux_read = [(''reg'', 7)]\<rparr>,
       \<lparr>model_outputs = ([50], [60]), invoked = Loss2 [50] [60],
        returned_loss = 10, returned_rest = [Tensor 2, Tensor 4], aux_read = [(''reg'', 13)]\<rparr>],
      [CallModelTrain,
       CallZeroGrad, CallModel [1, 3], CallModel [2, 4], CallLoss (Loss3 [10, 30] [20, 40] [7, 8]),
       CallBackward, CallStep,
       CallZeroGrad, CallModel [5], CallModel [6], CallLoss (Loss2 [50] [60]),
       CallBackward, CallStep])"
  by (simp add: training_run_def training_cycle_def forward_views_def loss_arguments_def
      read_aux_def visualizer_effect_def recording_base_def mixed_loader_def)

lemma recording_evaluation_run:
  "evaluation_run recording_base mixed_loader True [] =
     ([\<lparr>model_outputs = ([10, 30], [20, 40]), invoked = Loss3 [10, 30] [20, 40] [7, 8],
        returned_loss = 4, returned_rest = [Tensor 2, Tensor 4], aux_read = [(''reg'', 5)]\<rparr>,
       \<lparr>model_outputs = ([50], [60]), invoked = Loss2 [50] [60],
        returned_loss = 8, returned_rest = [Tensor 2, Tensor 4], aux_read = [(''reg'', 9)]\<rparr>],
      [CallModelEval,
       CallModel [1, 3], CallModel [2, 4], CallVisuals, CallLoss (Loss3 [10, 30] [20, 40] [7, 8]),
       CallModel [5], CallModel [6], CallVisuals, CallLoss (Loss2 [50] [60])])"
  by (simp add: evaluation_run_def evaluation_step_def forward_views_def loss_arguments_def
      read_aux_def visuals_effect_def recording_base_def mixed_loader_def)

lemma train_returns:
  assumes "\<And>a s0. length (snd (fst (loss b a s0))) \<le> 2"
  shows "\<exists>loss_mean vals c. train b l vz s = Inr (loss_mean, vals, c)"
  using train_Inr [OF assms, of l vz s] by (elim exE conjE) (intro exI, assumption)

lemma test_returns:
  assumes "\<And>a s0. length (snd (fst (loss b a s0))) \<le> 2"
    and "with_visuals \<longrightarrow> get_current_visuals b \<noteq> None"
  shows "\<exists>r. test b l with_visuals s = Inr r"
  using test_Inr [OF assms, of l s] by (elim exE conjE) (intro exI, assumption)

lemma loss_arguments_all:
  "list_all2 (\<lambda>d out. invoked out = loss_arguments d (model_outputs out)) ds
     (fst (training_cycles b vz ds n s))"
proof (induction ds arbitrary: n s)
  case Nil
  show ?case by simp
next
  case (Cons d ds)
  show ?case
    using Cons [of "Suc n" "visualizer_effect b vz n (snd (training_cycle b d s))"]
    by (simp add: case_prod_beta training_cycle_eq)
qed

lemma loss_arguments_all_eval:
  "list_all2 (\<lambda>d out. invoked out = loss_arguments d (model_outputs out)) ds
     (fst (evaluation_steps b wv ds s))"
proof (induction ds arbitrary: s)
  case Nil
  show ?case by simp
next
  case (Cons d ds)
  show ?case
    using Cons [of "snd (evaluation_step b wv d s)"]
    by (simp add: case_prod_beta evaluation_step_eq)
qed

text \<open>
  Claim C5. Whenever \<open>train\<close> returns, the world it leaves is the world that the per-batch
  cycle \<open>zero_grad\<close>, forward pass of the first views, forward pass of the second views,
  loss, \<open>backward\<close>, optimizer step leaves when it is run on every batch in the order of the
  loader (\<open>training_run\<close>, written on the collaborators alone); the first component of the
  result is the arithmetic mean, over all the batches, of the loss values that the loss
  callable returned in these cycles (\<open>nan\<close> for an empty loader); and the trace of the call
  shows the same cycle, batch after batch. \<open>train\<close> returns whenever the loss callable
  gives at most two further outputs.
\<close>

theorem train_cycle_and_mean:
  "(train b l vz s = Inr (loss_mean, vals, (s', tr)) \<longrightarrow>
      s' = snd (training_run b l vz s) \<and>
      loss_mean =
        (if iterate l 0 = [] then NaN
         else Float (sum_list (map returned_loss (fst (training_run b l vz s))) /
                     real (length (iterate l 0)))) \<and>
      cycle tr = concat (map batch_cycle (iterate l 0)) \<and>
      loss_results tr = logged_loss_calls (fst (training_run b l vz s)) \<and>
      forwards tr = logged_forwards (iterate l 0) (fst (training_run b l vz s))) \<and>
   length (fst (training_run b l vz s)) = length (iterate l 0) \<and>
   ((\<forall>a s0. length (snd (fst (loss b a s0))) \<le> 2) \<longrightarrow>
      (\<exists>loss_mean vals c. train b l vz s = Inr (loss_mean, vals, c)))"
proof -
  have len: "length (fst (training_run b l vz s)) = length (iterate l 0)"
    by (simp add: training_run_def training_cycles_length)
  have mean: "np_mean (map returned_loss (fst (training_run b l vz s))) =
        (if iterate l 0 = [] then NaN
         else Float (sum_list (map returned_loss (fst (training_run b l vz s))) /
                     real (length (iterate l 0))))"
    using len by (auto simp: np_mean_def)
  have 1: "train b l vz s = Inr (loss_mean, vals, (s', tr)) \<longrightarrow>
      s' = snd (training_run b l vz s) \<and>
      loss_mean =
        (if iterate l 0 = [] then NaN
         else Float (sum_list (map returned_loss (fst (training_run b l vz s))) /
                     real (length (iterate l 0)))) \<and>
      cycle tr = concat (map batch_cycle (iterate l 0)) \<and>
      loss_results tr = logged_loss_calls (fst (training_run b l vz s)) \<and>
      forwards tr = logged_forwards (iterate l 0) (fst (training_run b l vz s))"
  proof
    assume t: "train b l vz s = Inr (loss_mean, vals, (s', tr))"
    from train_run(2) [OF t] mean have "loss_mean =
        (if iterate l 0 = [] then NaN
         else Float (sum_list (map returned_loss (fst (training_run b l vz s))) /
                     real (length (iterate l 0))))"
      by (rule trans)
    with train_run(1) [OF t] train_run(3) [OF t] train_run(4) [OF t] train_run(5) [OF t]
    show "s' = snd (training_run b l vz s) \<and>
      loss_mean =
        (if iterate l 0 = [] then NaN
         else Float (sum_list (map returned_loss (fst (training_run b l vz s))) /
                     real (length (iterate l 0)))) \<and>
      cycle tr = concat (map batch_cycle (iterate l 0)) \<and>
      loss_results tr = logged_loss_calls (fst (training_run b l vz s)) \<and>
      forwards tr = logged_forwards (iterate l 0) (fst (training_run b l vz s))"
      by (intro conjI)
  qed
  have 3: "(\<forall>a s0. length (snd (fst (loss b a s0))) \<le> 2) \<longrightarrow>
      (\<exists>loss_mean vals c. train b l vz s = Inr (loss_mean, vals, c))"
  proof
    assume "\<forall>a s0. length (snd (fst (loss b a s0))) \<le> 2"
    then have "\<And>a s0. length (snd (fst (loss b a s0))) \<le> 2" by simp
    then show "\<exists>loss_mean vals c. train b l vz s = Inr (loss_mean, vals, c)"
      by (rule train_returns)
  qed
  from 1 len 3 show ?thesis by (intro conjI)
qed

theorem train_cycle_and_mean_witness:
  "(\<forall>a s0. length (snd (fst (loss recording_base a s0))) \<le> 2) \<and>
   (\<exists>vals tr.
      train recording_base mixed_loader None [] =
        Inr (Float 7, vals,
             ([CallModelTrain,
               CallZeroGrad, CallModel [1, 3], CallModel [2, 4],
               CallLoss (Loss3 [10, 30] [20, 40] [7, 8]), CallBackward, CallStep,
               CallZeroGrad, CallModel [5], CallModel [6],
               CallLoss (Loss2 [50] [60]), CallBackward, CallStep], tr)) \<and>
      cycle tr =
        [CZeroGrad, CForward [1, 3], CForward [2, 4], CLoss, CBackward, CStep,
         CZeroGrad, CForward [5], CForward [6], CLoss, CBackward, CStep] \<and>
      map (\<lambda>c. fst (snd c)) (loss_results tr) = [4, 10])"
proof -
  have two: "\<forall>a s0. length (snd (fst (loss recording_base a s0))) \<le> 2"
    by (simp add: recording_base_two)
  have it: "iterate mixed_loader 0 =
      [\<lparr>inputs = [(1, 2), (3, 4)], labels = Some [7, 8]\<rparr>, \<lparr>inputs = [(5, 6)], labels = None\<rparr>]"
    by (simp add: mixed_loader_def)
  from two train_cycle_and_mean [of recording_base mixed_loader None "[]"]
  obtain loss_mean vals c where
    "train recording_base mixed_loader None [] = Inr (loss_mean, vals, c)"
    by blast
  then obtain s' tr where
    t: "train recording_base mixed_loader None [] = Inr (loss_mean, vals, (s', tr))"
    by (cases c) simp
  from t train_cycle_and_mean [of recording_base mixed_loader None "[]" loss_mean vals s' tr]
  have "s' = snd (training_run recording_base mixed_loader None [])"
    and "loss_mean =
        (if iterate mixed_loader 0 = [] then NaN
         else Float (sum_list (map returned_loss
                 (fst (training_run recording_base mixed_loader None []))) /
                     real (length (iterate mixed_loader 0))))"
    and "cycle tr = concat (map batch_cycle (iterate mixed_loader 0))"
    and "loss_results tr = logged_loss_calls (fst (training_run recording_base mixed_loader None []))"
    by blast+
  then have s': "s' = [CallModelTrain,
               CallZeroGrad, CallModel [1, 3], CallModel [2, 4],
               CallLoss (Loss3 [10, 30] [20, 40] [7, 8]), CallBackward, CallStep,
               CallZeroGrad, CallModel [5], CallModel [6],
               CallLoss (Loss2 [50] [60]), CallBackward, CallStep]"
    and lm: "loss_mean = Float 7"
    and c: "cycle tr =
        [CZeroGrad, CForward [1, 3], CForward [2, 4], CLoss, CBackward, CStep,
         CZeroGrad, CForward [5], CForward [6], CLoss, CBackward, CStep]"
    and lv: "map (\<lambda>c. fst (snd c)) (loss_results tr) = [4, 10]"
    by (simp_all add: recording_training_run it batch_cycle_def logged_loss_calls_def)
  from t c lv show ?thesis
    unfolding s' lm by (intro conjI two exI [of _ vals] exI [of _ tr])
qed


text \<open>
  Claim C8. In \<open>train\<close> and in \<open>test\<close>, the loss callable is applied to the labels exactly
  when the batch has labels: on every batch it is called as \<open>loss(z_i, z_j, labels)\<close> when
  \<open>labels\<close> is not \<open>None\<close> and as \<open>loss(z_i, z_j)\<close> when it is, where \<open>z_i\<close> and \<open>z_j\<close> are
  what the network returns on the first and on the second views of the batch. Whenever
  \<open>train\<close> or \<open>test\<close> returns, the world it leaves, the loss it returns and the loss calls
  of its trace are those of \<open>training_run\<close> and \<open>evaluation_run\<close>, where the loss callable
  is applied in this way to the outputs of the network; both return whenever the loss
  callable gives at most two further outputs and the network has \<open>get_current_visuals\<close>
  if visuals are asked for.
\<close>

theorem loss_called_with_labels_iff:
  "(train b l vz s = Inr (loss_mean, vals, (s', tr)) \<longrightarrow>
      s' = snd (training_run b l vz s) \<and>
      loss_mean = np_mean (map returned_loss (fst (training_run b l vz s))) \<and>
      loss_results tr = logged_loss_calls (fst (training_run b l vz s)) \<and>
      forwards tr = logged_forwards (iterate l 0) (fst (training_run b l vz s))) \<and>
   (test b l with_visuals s = Inr r \<longrightarrow>
      fst (final_ctx r) = snd (evaluation_run b l with_visuals s) \<and>
      loss_value r =
        sum_list (map (\<lambda>out. returned_loss out / real (len_loader l))
                    (fst (evaluation_run b l with_visuals s))) \<and>
      loss_results (snd (final_ctx r)) =
        logged_loss_calls (fst (evaluation_run b l with_visuals s)) \<and>
      forwards (snd (final_ctx r)) =
        logged_forwards (iterate l 0) (fst (evaluation_run b l with_visuals s))) \<and>
   list_all2
     (\<lambda>d out. invoked out =
        (if labels d = None then Loss2 (fst (model_outputs out)) (snd (model_outputs out))
         else Loss3 (fst (model_outputs out)) (snd (model_outputs out)) (the (labels d))))
     (iterate l 0) (fst (training_run b l vz s)) \<and>
   list_all2
     (\<lambda>d out. invoked out =
        (if labels d = None then Loss2 (fst (model_outputs out)) (snd (model_outputs out))
         else Loss3 (fst (model_outputs out)) (snd (model_outputs out)) (the (labels d))))
     (iterate l 0) (fst (evaluation_run b l with_visuals s)) \<and>
   ((\<forall>a s0. length (snd (fst (loss b a s0))) \<le> 2) \<and>
    (with_visuals \<longrightarrow> get_current_visuals b \<noteq> None) \<longrightarrow>
      (\<exists>loss_mean vals c. train b l vz s = Inr (loss_mean, vals, c)) \<and>
      (\<exists>r. test b l with_visuals s = Inr r))"
proof -
  have 1: "train b l vz s = Inr (loss_mean, vals, (s', tr)) \<longrightarrow>
      s' = snd (training_run b l vz s) \<and>
      loss_mean = np_mean (map returned_loss (fst (training_run b l vz s))) \<and>
      loss_results tr = logged_loss_calls (fst (training_run b l vz s)) \<and>
      forwards tr = logged_forwards (iterate l 0) (fst (training_run b l vz s))"
  proof
    assume t: "train b l vz s = Inr (loss_mean, vals, (s', tr))"
    from train_run(1) [OF t] train_run(2) [OF t] train_run(4) [OF t] train_run(5) [OF t]
    show "s' = snd (training_run b l vz s) \<and>
      loss_mean = np_mean (map returned_loss (fst (training_run b l vz s))) \<and>
      loss_results tr = logged_loss_calls (fst (training_run b l vz s)) \<and>
      forwards tr = logged_forwards (iterate l 0) (fst (training_run b l vz s))"
      by (intro conjI)
  qed
  have 2: "test b l with_visuals s = Inr r \<longrightarrow>
      fst (final_ctx r) = snd (evaluation_run b l with_visuals s) \<and>
      loss_value r =
        sum_list (map (\<lambda>out. returned_loss out / real (len_loader l))
                    (fst (evaluation_run b l with_visuals s))) \<and>
      loss_results (snd (final_ctx r)) =
        logged_loss_calls (fst (evaluation_run b l with_visuals s)) \<and>
      forwards (snd (final_ctx r)) =
        logged_forwards (iterate l 0) (fst (evaluation_run b l with_visuals s))"
  proof
    assume t: "test b l with_visuals s = Inr r"
    from test_run(1) [OF t] test_run(2) [OF t] test_run(3) [OF t] test_run(4) [OF t]
    show "fst (final_ctx r) = snd (evaluation_run b l with_visuals s) \<and>
      loss_value r =
        sum_list (map (\<lambda>out. returned_loss out / real (len_loader l))
                    (fst (evaluation_run b l with_visuals s))) \<and>
      loss_results (snd (final_ctx r)) =
        logged_loss_calls (fst (evaluation_run b l with_visuals s)) \<and>
      forwards (snd (final_ctx r)) =
        logged_forwards (iterate l 0) (fst (evaluation_run b l with_visuals s))"
      by (intro conjI)
  qed
  have 3: "list_all2
     (\<lambda>d out. invoked out =
        (if labels d = None then Loss2 (fst (model_outputs out)) (snd (model_outputs out))
         else Loss3 (fst (model_outputs out)) (snd (model_outputs out)) (the (labels d))))
     (iterate l 0) (fst (training_run b l vz s))"
    using loss_arguments_all [of "iterate l 0" b vz 0 "model_train b s"]
    by (simp add: training_run_def loss_arguments_def)
  have 4: "list_all2
     (\<lambda>d out. invoked out =
        (if labels d = None then Loss2 (fst (model_outputs out)) (snd (model_outputs out))
         else Loss3 (fst (model_outputs out)) (snd (model_outputs out)) (the (labels d))))
     (iterate l 0) (fst (evaluation_run b l with_visuals s))"
    using loss_arguments_all_eval [of "iterate l 0" b with_visuals "model_eval b s"]
    by (simp add: evaluation_run_def loss_arguments_def)
  have 5: "(\<forall>a s0. length (snd (fst (loss b a s0))) \<le> 2) \<and>
    (with_visuals \<longrightarrow> get_current_visuals b \<noteq> None) \<longrightarrow>
      (\<exists>loss_mean vals c. train b l vz s = Inr (loss_mean, vals, c)) \<and>
      (\<exists>r. test b l with_visuals s = Inr r)"
  proof
    assume h: "(\<forall>a s0. length (snd (fst (loss b a s0))) \<le> 2) \<and>
      (with_visuals \<longrightarrow> get_current_visuals b \<noteq> None)"
    then have two: "\<And>a s0. length (snd (fst (loss b a s0))) \<le> 2"
      and vis: "with_visuals \<longrightarrow> get_current_visuals b \<noteq> None"
      by simp_all
    from train_returns [OF two] test_returns [OF two vis]
    show "(\<exists>loss_mean vals c. train b l vz s = Inr (loss_mean, vals, c)) \<and>
      (\<exists>r. test b l with_visuals s = Inr r)"
      by (intro conjI)
  qed
  from 1 2 3 4 5 show ?thesis by (intro conjI)
qed

theorem loss_called_with_labels_iff_witness:
  "(\<forall>a s0. length (snd (fst (loss recording_base a s0))) \<le> 2) \<and>
   get_current_visuals recording_base \<noteq> None \<and>
   (\<exists>loss_mean vals tr.
      train recording_base mixed_loader None [] =
        Inr (loss_mean, vals,
             ([CallModelTrain,
               CallZeroGrad, CallModel [1, 3], CallModel [2, 4],
               CallLoss (Loss3 [10, 30] [20, 40] [7, 8]), CallBackward, CallStep,
               CallZeroGrad, CallModel [5], CallModel [6],
               CallLoss (Loss2 [50] [60]), CallBackward, CallStep], tr)) \<and>
      loss_results tr =
        [(Loss3 [10, 30] [20, 40] [7, 8], 4, [Tensor 2, Tensor 4]),
         (Loss2 [50] [60], 10, [Tensor 2, Tensor 4])]) \<and>
   (\<exists>r. test recording_base mixed_loader True [] = Inr r \<and>
      fst (final_ctx r) =
        [CallModelEval,
         CallModel [1, 3], CallModel [2, 4], CallVisuals,
         CallLoss (Loss3 [10, 30] [20, 40] [7, 8]),
         CallModel [5], CallModel [6], CallVisuals, CallLoss (Loss2 [50] [60])] \<and>
      loss_value r = 6 \<and>
      loss_results (snd (final_ctx r)) =
        [(Loss3 [10, 30] [20, 40] [7, 8], 4, [Tensor 2, Tensor 4]),
         (Loss2 [50] [60], 8, [Tensor 2, Tensor 4])])"
proof -
  have two: "\<forall>a s0. length (snd (fst (loss recording_base a s0))) \<le> 2"
    by (simp add: recording_base_two)
  have vis: "get_current_visuals recording_base \<noteq> None"
    by (simp add: recording_base_def)
  have ln: "len_loader mixed_loader = 2"
    by (simp add: len_loader_def mixed_loader_def)
  note inst = loss_called_with_labels_iff [where b = recording_base and l = mixed_loader
      and vz = None and s = "[]" and with_visuals = True]
  from two vis inst obtain loss_mean vals c r where
    "train recording_base mixed_loader None [] = Inr (loss_mean, vals, c)"
    and e: "test recording_base mixed_loader True [] = Inr r"
    by blast
  then obtain s' tr where
    t: "train recording_base mixed_loader None [] = Inr (loss_mean, vals, (s', tr))"
    by (cases c) simp
  from t inst [where loss_mean = loss_mean and vals = vals and s' = s' and tr = tr]
  have "s' = snd (training_run recording_base mixed_loader None [])"
    and "loss_results tr =
      logged_loss_calls (fst (training_run recording_base mixed_loader None []))"
    by blast+
  then have s': "s' = [CallModelTrain,
               CallZeroGrad, CallModel [1, 3], CallModel [2, 4],
               CallLoss (Loss3 [10, 30] [20, 40] [7, 8]), CallBackward, CallStep,
               CallZeroGrad, CallModel [5], CallModel [6],
               CallLoss (Loss2 [50] [60]), CallBackward, CallStep]"
    and lr: "loss_results tr =
        [(Loss3 [10, 30] [20, 40] [7, 8], 4, [Tensor 2, Tensor 4]),
         (Loss2 [50] [60], 10, [Tensor 2, Tensor 4])]"
    by (simp_all add: recording_training_run logged_loss_calls_def)
  from e inst [where r = r]
  have "fst (final_ctx r) = snd (evaluation_run recording_base mixed_loader True [])"
    and "loss_value r =
        sum_list (map (\<lambda>out. returned_loss out / real (len_loader mixed_loader))
                    (fst (evaluation_run recording_base mixed_loader True [])))"
    and "loss_results (snd (final_ctx r)) =
        logged_loss_calls (fst (evaluation_run recording_base mixed_loader True []))"
    by blast+
  then have f: "fst (final_ctx r) =
        [CallModelEval,
         CallModel [1, 3], CallModel [2, 4], CallVisuals,
         CallLoss (Loss3 [10, 30] [20, 40] [7, 8]),
         CallModel [5], CallModel [6], CallVisuals, CallLoss (Loss2 [50] [60])]"
    and lv: "loss_value r = 6"
    and lr': "loss_results (snd (final_ctx r)) =
        [(Loss3 [10, 30] [20, 40] [7, 8], 4, [Tensor 2, Tensor 4]),
         (Loss2 [50] [60], 8, [Tensor 2, Tensor 4])]"
    by (simp_all add: recording_evaluation_run logged_loss_calls_def ln)
  from t lr have a: "\<exists>loss_mean vals tr.
      train recording_base mixed_loader None [] =
        Inr (loss_mean, vals,
             ([CallModelTrain,
               CallZeroGrad, CallModel [1, 3], CallModel [2, 4],
               CallLoss (Loss3 [10, 30] [20, 40] [7, 8]), CallBackward, CallStep,
               CallZeroGrad, CallModel [5], CallModel [6],
               CallLoss (Loss2 [50] [60]), CallBackward, CallStep], tr)) \<and>
      loss_results tr =
        [(Loss3 [10, 30] [20, 40] [7, 8], 4, [Tensor 2, Tensor 4]),
         (Loss2 [50] [60], 10, [Tensor 2, Tensor 4])]"
    unfolding s' by (intro exI [of _ loss_mean] exI [of _ vals] exI [of _ tr] conjI)
  from e f lv lr' have b: "\<exists>r. test recording_base mixed_loader True [] = Inr r \<and>
      fst (final_ctx r) =
        [CallModelEval,
         CallModel [1, 3], CallModel [2, 4], CallVisuals,
         CallLoss (Loss3 [10, 30] [20, 40] [7, 8]),
         CallModel [5], CallModel [6], CallVisuals, CallLoss (Loss2 [50] [60])] \<and>
      loss_value r = 6 \<and>
      loss_results (snd (final_ctx r)) =
        [(Loss3 [10, 30] [20, 40] [7, 8], 4, [Tensor 2, Tensor 4]),
         (Loss2 [50] [60], 8, [Tensor 2, Tensor 4])]"
    by (intro exI [of _ r] conjI)
  from two vis a b show ?thesis by (intro conjI)
qed

subsection \<open>Metric aggregation\<close>








lemma logged_shape:
  "list_all (\<lambda>r. \<exists>lg tg. snd (snd r) = [Tensor lg, Tensor tg]) (logged_loss_calls outs) \<Longrightarrow>
     list_all (\<lambda>out. \<exists>lg tg. returned_rest out = [Tensor lg, Tensor tg] \<and>
                 metric_on m (returned_rest out) = m lg tg) outs"
  by (induction outs) (auto simp: logged_loss_calls_def)








end
